theory Spec2Isabelle
  imports Complex_Main "HOL-Library.FSet"
begin

section \<open>Political evolution simulator: shared data\<close>

text \<open>
  The repository holds two programs: the detailed simulator
  (\<^verbatim>\<open>political_evolution_simulator/Political Simulation.py\<close>) and the prototype
  (\<^verbatim>\<open>protoype.py\<close>). Both read module-level constants; here they are the fields of
  one configuration record that every function takes as its first argument.
  Python floats are modelled as \<^typ>\<open>real\<close>, Python ints as \<^typ>\<open>int\<close>, list
  indices produced by \<^verbatim>\<open>enumerate\<close> and \<^verbatim>\<open>range\<close> as \<^typ>\<open>nat\<close>.
  Every exception the code can raise is a value \<open>Inl e\<close>.
\<close>

datatype error = ZeroDivisionError | ValueError | IndexError

text \<open>
  The two mutation standard deviations are the only floats whose sign bit the code
  can observe (numpy's sampler tests it), so they are kept as a sign bit and a
  magnitude: \<open>Plus m\<close> is the float \<open>\<bar>m\<bar>\<close> and \<open>Minus m\<close> the float \<open>- \<bar>m\<bar>\<close>;
  \<open>Plus 0\<close> is \<^verbatim>\<open>0.0\<close> and \<open>Minus 0\<close> is \<^verbatim>\<open>-0.0\<close>.
\<close>

datatype py_float = Plus real | Minus real

fun signbit :: "py_float \<Rightarrow> bool" where
  "signbit (Plus m) = False"
| "signbit (Minus m) = True"

fun float_value :: "py_float \<Rightarrow> real" where
  "float_value (Plus m) = \<bar>m\<bar>"
| "float_value (Minus m) = - \<bar>m\<bar>"

record config =
  N_VOTERS :: int
  N_CANDIDATES :: int
  MAX_GENERATIONS :: int
  RESOURCE_POOL :: real
  PUBLIC_GOODS_MUT_STD :: py_float
  POLICY_MUT_STD :: py_float
  THETA :: real
  TAU :: real
  PHI :: real
  WINNING_COALITION_SIZE :: int
  RATIO_OF_VOTERS :: real

text \<open>\<^verbatim>\<open>np.clip(x, lo, hi)\<close> is \<^verbatim>\<open>minimum(maximum(x, lo), hi)\<close>.\<close>

definition clip :: "real \<Rightarrow> real \<Rightarrow> real \<Rightarrow> real" where
  "clip x lo hi = min (max x lo) hi"

text \<open>
  \<^verbatim>\<open>np.random.normal(loc, scale)\<close>: numpy raises \<^verbatim>\<open>ValueError\<close> when the sign
  bit of \<^verbatim>\<open>scale\<close> is set (a negative scale, and also \<^verbatim>\<open>-0.0\<close>) and otherwise
  returns \<^verbatim>\<open>loc + scale * g\<close> for a standard normal sample \<open>g\<close>. The sample is an
  argument of the model: any real.
\<close>

definition normal :: "real \<Rightarrow> py_float \<Rightarrow> real \<Rightarrow> error + real" where
  "normal loc scale g =
     (if signbit scale then Inl ValueError else Inr (loc + float_value scale * g))"

text \<open>\<^verbatim>\<open>np.argmax\<close>: the first index of the maximum; \<^verbatim>\<open>ValueError\<close> on an empty
  sequence. The auxiliary loop carries the next index, the best index and the best value.\<close>

fun argmax_from :: "'a::linorder list \<Rightarrow> nat \<Rightarrow> nat \<Rightarrow> 'a \<Rightarrow> nat" where
  "argmax_from [] i b m = b"
| "argmax_from (x # xs) i b m =
     (if m < x then argmax_from xs (Suc i) i x else argmax_from xs (Suc i) b m)"

definition argmax :: "'a::linorder list \<Rightarrow> error + nat" where
  "argmax xs = (case xs of [] \<Rightarrow> Inl ValueError | x # ys \<Rightarrow> Inr (argmax_from ys 1 0 x))"

text \<open>
  \<^verbatim>\<open>np.bincount(xs, minlength=m)\<close> on non-negative integers: entry \<open>k\<close> counts the
  occurrences of \<open>k\<close>; the result has \<^verbatim>\<open>max(m, max(xs) + 1)\<close> entries (\<open>m\<close> for
  an empty input); a negative \<^verbatim>\<open>minlength\<close> raises \<^verbatim>\<open>ValueError\<close>.
\<close>

definition bincount :: "nat list \<Rightarrow> int \<Rightarrow> error + nat list" where
  "bincount xs minlength =
     (if minlength < 0 then Inl ValueError
      else Inr (map (count_list xs)
                  [0 ..< max (nat minlength) (if xs = [] then 0 else Suc (fold max xs 0))]))"

section \<open>Detailed simulator (plurality rule)\<close>

record voter =
  ideology :: real
  risk_type :: string
  included :: "bool list"

record candidate =
  c_ideology :: real
  alpha :: real

text \<open>\<^verbatim>\<open>Voter.utility(self, cand_ideo, cand_alpha, cid)\<close>. The two divisions raise on a
  zero divisor; the private term divides only when the flag is set; reading the flag
  raises when \<open>cid\<close> is not an index of \<^verbatim>\<open>self.included\<close>.\<close>

definition utility :: "config \<Rightarrow> voter \<Rightarrow> real \<Rightarrow> real \<Rightarrow> nat \<Rightarrow> error + real" where
  "utility cfg self cand_ideo cand_alpha cid =
     (let pay_ideo = (ideology self - cand_ideo)\<^sup>2 in
      if N_VOTERS cfg = 0 then Inl ZeroDivisionError
      else
        let pay_public = cand_alpha * (RESOURCE_POOL cfg / real_of_int (N_VOTERS cfg)) in
        if \<not> cid < length (included self) then Inl IndexError
        else if included self ! cid then
          (if WINNING_COALITION_SIZE cfg = 0 then Inl ZeroDivisionError
           else Inr (pay_ideo + pay_public
                     + (1 - cand_alpha)
                       * (RESOURCE_POOL cfg / real_of_int (WINNING_COALITION_SIZE cfg))))
        else Inr (pay_ideo + pay_public + 0))"

text \<open>\<^verbatim>\<open>Voter.inclusion(self, cid, coal_prob, cand_ideo)\<close>: stores the flag in
  \<^verbatim>\<open>self.included[cid]\<close> and returns it; the store raises out of range.\<close>

definition inclusion :: "config \<Rightarrow> voter \<Rightarrow> nat \<Rightarrow> real \<Rightarrow> real \<Rightarrow> error + (bool \<times> voter)" where
  "inclusion cfg self cid coal_prob cand_ideo =
     (let dist = \<bar>ideology self - cand_ideo\<bar>;
          thresh = (if risk_type self = ''risk'' then TAU cfg else PHI cfg);
          flag = (dist \<le> THETA cfg \<and> coal_prob \<ge> thresh)
      in if cid < length (included self)
         then Inr (flag, self\<lparr>included := (included self)[cid := flag]\<rparr>)
         else Inl IndexError)"

text \<open>\<^verbatim>\<open>Candidate.mutate(self, mutate_ideology=True)\<close>; \<open>g\<close> holds the two standard
  normal samples (the second is drawn only when the ideology mutates).\<close>

definition mutate :: "config \<Rightarrow> candidate \<Rightarrow> bool \<Rightarrow> real \<times> real \<Rightarrow> error + candidate" where
  "mutate cfg self mutate_ideology g =
     (case normal 0 (PUBLIC_GOODS_MUT_STD cfg) (fst g) of
        Inl e \<Rightarrow> Inl e
      | Inr da \<Rightarrow>
          let new_alpha = clip (alpha self + da) 0 1 in
          (case (if mutate_ideology
                 then (case normal 0 (POLICY_MUT_STD cfg) (snd g) of
                         Inl e \<Rightarrow> Inl e
                       | Inr dp \<Rightarrow> Inr (c_ideology self + dp))
                 else Inr (c_ideology self)) of
             Inl e \<Rightarrow> Inl e
           | Inr new_ideo \<Rightarrow>
               Inr \<lparr>c_ideology = clip new_ideo (- 100) 100, alpha = new_alpha\<rparr>))"

text \<open>\<^verbatim>\<open>xs[i]\<close> for an index that is never negative.\<close>

definition index :: "'a list \<Rightarrow> nat \<Rightarrow> error + 'a" where
  "index xs i = (if i < length xs then Inr (xs ! i) else Inl IndexError)"

text \<open>\<^verbatim>\<open>int(x)\<close> on a float truncates towards zero.\<close>

definition py_int :: "real \<Rightarrow> int" where
  "py_int x = (if 0 \<le> x then \<lfloor>x\<rfloor> else \<lceil>x\<rceil>)"

record vote_info =
  vi_voter_id :: nat
  vi_risk_type :: string
  vi_utilities :: "real list"
  vi_included :: "bool list"
  vi_ballot :: nat

record sim =
  voters :: "voter list"
  candidates :: "candidate list"

text \<open>The inner loop of \<^verbatim>\<open>run_generation_detailed\<close> (lines 81-84): one voter against
  the candidates from index \<open>cid\<close> on, appending to \<^verbatim>\<open>utils\<close>.\<close>

fun eval_candidates ::
  "config \<Rightarrow> voter \<Rightarrow> nat \<Rightarrow> candidate list \<Rightarrow> real list \<Rightarrow> error + (voter \<times> real list)" where
  "eval_candidates cfg v cid [] utils = Inr (v, utils)"
| "eval_candidates cfg v cid (c # cs) utils =
     (if N_VOTERS cfg = 0 then Inl ZeroDivisionError
      else
        let coal_prob = real_of_int (WINNING_COALITION_SIZE cfg) / real_of_int (N_VOTERS cfg) in
        case inclusion cfg v cid coal_prob (c_ideology c) of
          Inl e \<Rightarrow> Inl e
        | Inr (_, v') \<Rightarrow>
            (case utility cfg v' (c_ideology c) (alpha c) cid of
               Inl e \<Rightarrow> Inl e
             | Inr u \<Rightarrow> eval_candidates cfg v' (Suc cid) cs (utils @ [u])))"

text \<open>The outer loop (lines 78-93) over the voters from index \<open>vid\<close> on. It returns the
  voters with their rewritten flags, the ballots and the \<^verbatim>\<open>vote_info\<close> entries.\<close>

fun vote_loop ::
  "config \<Rightarrow> candidate list \<Rightarrow> nat \<Rightarrow> voter list
   \<Rightarrow> error + (voter list \<times> nat list \<times> vote_info list)" where
  "vote_loop cfg cs vid [] = Inr ([], [], [])"
| "vote_loop cfg cs vid (v # vs) =
     (case eval_candidates cfg
             (v\<lparr>included := replicate (nat (N_CANDIDATES cfg)) False\<rparr>) 0 cs [] of
        Inl e \<Rightarrow> Inl e
      | Inr (v', utils) \<Rightarrow>
          (case argmax utils of
             Inl e \<Rightarrow> Inl e
           | Inr choice \<Rightarrow>
               (case vote_loop cfg cs (Suc vid) vs of
                  Inl e \<Rightarrow> Inl e
                | Inr (vs', ballots, infos) \<Rightarrow>
                    Inr (v' # vs', choice # ballots,
                         \<lparr>vi_voter_id = vid, vi_risk_type = risk_type v',
                          vi_utilities = utils, vi_included = included v',
                          vi_ballot = choice\<rparr> # infos))))"

text \<open>Lines 98-100: every index of \<^verbatim>\<open>range(N_CANDIDATES)\<close> other than the winner's is
  overwritten by a mutation of the candidate in the winner's slot; \<open>zs cid\<close> holds the
  normal samples of the draw for slot \<open>cid\<close>.\<close>

fun replace_losers ::
  "config \<Rightarrow> (nat \<Rightarrow> real \<times> real) \<Rightarrow> nat \<Rightarrow> nat list \<Rightarrow> candidate list
   \<Rightarrow> error + candidate list" where
  "replace_losers cfg zs winner_idx [] cs = Inr cs"
| "replace_losers cfg zs winner_idx (cid # cids) cs =
     (if cid \<noteq> winner_idx then
        (case index cs winner_idx of
           Inl e \<Rightarrow> Inl e
         | Inr w \<Rightarrow>
             (case mutate cfg w True (zs cid) of
                Inl e \<Rightarrow> Inl e
              | Inr c' \<Rightarrow>
                  if cid < length cs
                  then replace_losers cfg zs winner_idx cids (cs[cid := c'])
                  else Inl IndexError))
      else replace_losers cfg zs winner_idx cids cs)"

definition run_generation_detailed ::
  "config \<Rightarrow> (nat \<Rightarrow> real \<times> real) \<Rightarrow> sim
   \<Rightarrow> error + (vote_info list \<times> nat list \<times> nat \<times> sim)" where
  "run_generation_detailed cfg zs self =
     (case vote_loop cfg (candidates self) 0 (voters self) of
        Inl e \<Rightarrow> Inl e
      | Inr (vs', ballots, vote_info) \<Rightarrow>
          (case bincount ballots (N_CANDIDATES cfg) of
             Inl e \<Rightarrow> Inl e
           | Inr counts \<Rightarrow>
               (case argmax counts of
                  Inl e \<Rightarrow> Inl e
                | Inr winner_idx \<Rightarrow>
                    (case replace_losers cfg zs winner_idx [0 ..< nat (N_CANDIDATES cfg)]
                            (candidates self) of
                       Inl e \<Rightarrow> Inl e
                     | Inr cs' \<Rightarrow>
                         Inr (vote_info, counts, winner_idx,
                              self\<lparr>voters := vs', candidates := cs'\<rparr>)))))"

text \<open>The three record streams of \<^verbatim>\<open>run_simulation_detailed\<close>; the four per-candidate
  columns of a vote record are one list of tuples (ideology, alpha, included, utility).\<close>

record candidate_record =
  cr_generation :: nat
  cr_candidate_id :: nat
  cr_ideology :: real
  cr_alpha :: real
  cr_is_winner :: bool

record summary_record =
  sr_generation :: nat
  sr_vote_counts :: "nat list"
  sr_winner_idx :: nat

record vote_record =
  vr_generation :: nat
  vr_voter_id :: nat
  vr_risk_type :: string
  vr_voted_for :: nat
  vr_voter_ideology :: real
  vr_vote_counts :: "nat list"
  vr_winner_idx :: nat
  vr_cands :: "(real \<times> real \<times> bool \<times> real) list"

text \<open>Lines 113-120: one record per candidate of the population as it is after
  \<^verbatim>\<open>run_generation_detailed\<close> has returned.\<close>

definition candidate_records_of :: "nat \<Rightarrow> nat \<Rightarrow> candidate list \<Rightarrow> candidate_record list" where
  "candidate_records_of gen winner cs =
     map (\<lambda>cid. \<lparr>cr_generation = gen, cr_candidate_id = cid,
                 cr_ideology = c_ideology (cs ! cid), cr_alpha = alpha (cs ! cid),
                 cr_is_winner = (cid = winner)\<rparr>) [0 ..< length cs]"

text \<open>Lines 140-144: the per-candidate columns of one voter's record, from slot
  \<open>cid\<close> on.\<close>

fun cand_columns ::
  "vote_info \<Rightarrow> nat \<Rightarrow> candidate list \<Rightarrow> error + (real \<times> real \<times> bool \<times> real) list" where
  "cand_columns info cid [] = Inr []"
| "cand_columns info cid (c # cs) =
     (case index (vi_included info) cid of
        Inl e \<Rightarrow> Inl e
      | Inr inc \<Rightarrow>
          (case index (vi_utilities info) cid of
             Inl e \<Rightarrow> Inl e
           | Inr u \<Rightarrow>
               (case cand_columns info (Suc cid) cs of
                  Inl e \<Rightarrow> Inl e
                | Inr rest \<Rightarrow> Inr ((c_ideology c, alpha c, inc, u) # rest))))"

text \<open>Lines 130-145: one record per \<^verbatim>\<open>vote_info\<close> entry.\<close>

fun vote_records_of ::
  "nat \<Rightarrow> nat list \<Rightarrow> nat \<Rightarrow> sim \<Rightarrow> vote_info list \<Rightarrow> error + vote_record list" where
  "vote_records_of gen counts winner self [] = Inr []"
| "vote_records_of gen counts winner self (info # infos) =
     (case index (voters self) (vi_voter_id info) of
        Inl e \<Rightarrow> Inl e
      | Inr v \<Rightarrow>
          (case cand_columns info 0 (candidates self) of
             Inl e \<Rightarrow> Inl e
           | Inr cols \<Rightarrow>
               (case vote_records_of gen counts winner self infos of
                  Inl e \<Rightarrow> Inl e
                | Inr recs \<Rightarrow>
                    Inr (\<lparr>vr_generation = gen, vr_voter_id = vi_voter_id info,
                          vr_risk_type = vi_risk_type info, vr_voted_for = vi_ballot info,
                          vr_voter_ideology = ideology v, vr_vote_counts = counts,
                          vr_winner_idx = winner, vr_cands = cols\<rparr> # recs))))"

text \<open>The body of the loop of \<^verbatim>\<open>run_simulation_detailed\<close> (lines 110-145) for
  generation \<open>gen\<close>: the records it appends and the simulator afterwards.\<close>

definition simulation_step ::
  "config \<Rightarrow> (nat \<Rightarrow> real \<times> real) \<Rightarrow> nat \<Rightarrow> sim
   \<Rightarrow> error + (vote_record list \<times> summary_record \<times> candidate_record list \<times> sim)" where
  "simulation_step cfg zs gen self =
     (case run_generation_detailed cfg zs self of
        Inl e \<Rightarrow> Inl e
      | Inr (vote_info, counts, winner, self') \<Rightarrow>
          (case vote_records_of gen counts winner self' vote_info of
             Inl e \<Rightarrow> Inl e
           | Inr vrecs \<Rightarrow>
               Inr (vrecs,
                    \<lparr>sr_generation = gen, sr_vote_counts = counts, sr_winner_idx = winner\<rparr>,
                    candidate_records_of gen winner (candidates self'), self')))"

text \<open>The loop itself over the generations \<open>gens\<close>; \<open>zs gen\<close> holds the normal
  samples of generation \<open>gen\<close>. The three lists are the rows of the data frames.\<close>

fun simulation_loop ::
  "config \<Rightarrow> (nat \<Rightarrow> nat \<Rightarrow> real \<times> real) \<Rightarrow> nat list \<Rightarrow> sim
   \<Rightarrow> vote_record list \<times> summary_record list \<times> candidate_record list
   \<Rightarrow> error + (vote_record list \<times> summary_record list \<times> candidate_record list \<times> sim)" where
  "simulation_loop cfg zs [] self (vote_records, election_summary, candidate_records) =
     Inr (vote_records, election_summary, candidate_records, self)"
| "simulation_loop cfg zs (gen # gens) self (vote_records, election_summary, candidate_records) =
     (case simulation_step cfg (zs gen) gen self of
        Inl e \<Rightarrow> Inl e
      | Inr (vrecs, summ, crecs, self') \<Rightarrow>
          simulation_loop cfg zs gens self'
            (vote_records @ vrecs, election_summary @ [summ], candidate_records @ crecs))"

definition run_simulation_detailed ::
  "config \<Rightarrow> (nat \<Rightarrow> nat \<Rightarrow> real \<times> real) \<Rightarrow> sim
   \<Rightarrow> error + (vote_record list \<times> summary_record list \<times> candidate_record list \<times> sim)" where
  "run_simulation_detailed cfg zs self =
     simulation_loop cfg zs [0 ..< nat (MAX_GENERATIONS cfg)] self ([], [], [])"




section \<open>Prototype (coalition rule)\<close>

record proto_voter =
  p_ideology :: real
  p_risk_type :: string

record proto_candidate =
  policy :: real
  p_alpha :: real
  supporters :: "nat fset"
  winning_coalition :: "nat fset"

text \<open>\<^verbatim>\<open>Voter.utility(self, candidate, coalition_prob, included)\<close> of the prototype.
  The public payoff is computed first, so a zero \<^verbatim>\<open>N_VOTERS\<close> raises there.\<close>

definition proto_utility ::
  "config \<Rightarrow> proto_voter \<Rightarrow> proto_candidate \<Rightarrow> real \<Rightarrow> bool \<Rightarrow> error + real" where
  "proto_utility cfg self cand coalition_prob incl =
     (let policy_loss = - ((p_ideology self - policy cand)\<^sup>2) in
      if N_VOTERS cfg = 0 then Inl ZeroDivisionError
      else
        let public_payoff = p_alpha cand * (RESOURCE_POOL cfg / real_of_int (N_VOTERS cfg));
            private_payoff =
              (if incl
               then (1 - p_alpha cand) * (RESOURCE_POOL cfg / real_of_int (N_VOTERS cfg))
               else 0)
        in Inr (policy_loss + public_payoff + private_payoff))"

definition proto_inclusion :: "config \<Rightarrow> proto_voter \<Rightarrow> proto_candidate \<Rightarrow> real \<Rightarrow> bool" where
  "proto_inclusion cfg self cand coalition_prob =
     (let max_dist = THETA cfg;
          threshold = (if p_risk_type self = ''risk'' then TAU cfg else PHI cfg)
      in \<bar>p_ideology self - policy cand\<bar> \<le> max_dist \<and> coalition_prob \<ge> threshold)"

text \<open>\<^verbatim>\<open>Candidate.__init__\<close> and \<^verbatim>\<open>Candidate.mutate\<close> of the prototype: the
  constructor starts both sets empty.\<close>

definition Candidate :: "real \<Rightarrow> real \<Rightarrow> proto_candidate" where
  "Candidate pol al = \<lparr>policy = pol, p_alpha = al, supporters = {||}, winning_coalition = {||}\<rparr>"

definition proto_mutate ::
  "config \<Rightarrow> proto_candidate \<Rightarrow> bool \<Rightarrow> real \<times> real \<Rightarrow> error + proto_candidate" where
  "proto_mutate cfg self mutate_policy g =
     (case normal 0 (PUBLIC_GOODS_MUT_STD cfg) (fst g) of
        Inl e \<Rightarrow> Inl e
      | Inr da \<Rightarrow>
          let new_alpha = clip (p_alpha self + da) 0 1 in
          (case (if mutate_policy
                 then (case normal 0 (POLICY_MUT_STD cfg) (snd g) of
                         Inl e \<Rightarrow> Inl e
                       | Inr dp \<Rightarrow> Inr (policy self + dp))
                 else Inr (policy self)) of
             Inl e \<Rightarrow> Inl e
           | Inr new_policy \<Rightarrow> Inr (Candidate (clip new_policy 0 100) new_alpha)))"

record proto_sim =
  p_voters :: "proto_voter list"
  p_candidates :: "proto_candidate list"

text \<open>The estimate of line 65:
  \<^verbatim>\<open>len(c.winning_coalition) / N_VOTERS if c.winning_coalition else 1/N_VOTERS\<close>.\<close>

definition coalition_prob :: "config \<Rightarrow> proto_candidate \<Rightarrow> error + real" where
  "coalition_prob cfg cand =
     (if winning_coalition cand \<noteq> {||}
      then (if N_VOTERS cfg = 0 then Inl ZeroDivisionError
            else Inr (real (fcard (winning_coalition cand)) / real_of_int (N_VOTERS cfg)))
      else (if N_VOTERS cfg = 0 then Inl ZeroDivisionError
            else Inr (1 / real_of_int (N_VOTERS cfg))))"

text \<open>Lines 62-67: the utilities of one voter for the candidates, in order.\<close>

fun proto_eval_candidates ::
  "config \<Rightarrow> proto_voter \<Rightarrow> proto_candidate list \<Rightarrow> error + real list" where
  "proto_eval_candidates cfg v [] = Inr []"
| "proto_eval_candidates cfg v (c # cs) =
     (case coalition_prob cfg c of
        Inl e \<Rightarrow> Inl e
      | Inr p \<Rightarrow>
          (case proto_utility cfg v c p (proto_inclusion cfg v c p) of
             Inl e \<Rightarrow> Inl e
           | Inr u \<Rightarrow>
               (case proto_eval_candidates cfg v cs of
                  Inl e \<Rightarrow> Inl e
                | Inr us \<Rightarrow> Inr (u # us))))"

text \<open>Lines 60-69: the ballots, one per voter.\<close>

fun proto_vote_loop ::
  "config \<Rightarrow> proto_candidate list \<Rightarrow> proto_voter list \<Rightarrow> error + nat list" where
  "proto_vote_loop cfg cs [] = Inr []"
| "proto_vote_loop cfg cs (v # vs) =
     (case proto_eval_candidates cfg v cs of
        Inl e \<Rightarrow> Inl e
      | Inr utilities \<Rightarrow>
          (case argmax utilities of
             Inl e \<Rightarrow> Inl e
           | Inr chosen \<Rightarrow>
               (case proto_vote_loop cfg cs vs of
                  Inl e \<Rightarrow> Inl e
                | Inr ballots \<Rightarrow> Inr (chosen # ballots))))"

text \<open>\<^verbatim>\<open>xs[:k]\<close> for an int \<open>k\<close>: a negative \<open>k\<close> drops the last \<open>-k\<close> elements.\<close>

definition slice_to :: "'a list \<Rightarrow> int \<Rightarrow> 'a list" where
  "slice_to xs k = (if 0 \<le> k then take (nat k) xs else take (length xs - nat (- k)) xs)"

text \<open>
  Lines 72-78, from candidate index \<open>idx\<close> on. \<^verbatim>\<open>list(candidate.supporters)\<close>
  followed by \<^verbatim>\<open>np.random.shuffle\<close> yields the supporters in some order; the order
  is the argument \<open>shuffle idx\<close>, applied to the supporters in increasing order.
\<close>

fun form_coalitions ::
  "config \<Rightarrow> (nat \<Rightarrow> nat list \<Rightarrow> nat list) \<Rightarrow> nat list \<Rightarrow> nat \<Rightarrow> proto_candidate list
   \<Rightarrow> proto_candidate list" where
  "form_coalitions cfg shuffle ballots idx [] = []"
| "form_coalitions cfg shuffle ballots idx (c # cs) =
     (let supp = fset_of_list (filter (\<lambda>i. ballots ! i = idx) [0 ..< length ballots]);
          coalition_size = py_int ((5 / 10) * real_of_int (N_VOTERS cfg));
          supporters_list = shuffle idx (sorted_list_of_fset supp)
      in c\<lparr>supporters := supp,
            winning_coalition := fset_of_list (slice_to supporters_list coalition_size)\<rparr>
         # form_coalitions cfg shuffle ballots (Suc idx) cs)"

text \<open>Lines 87-89: the \<^verbatim>\<open>while\<close> loop that fills the new population with mutated
  copies of the winner; \<open>zs k\<close> holds the normal samples for the copy that lands in
  slot \<open>k\<close>.\<close>

function replicate_winner ::
  "config \<Rightarrow> (nat \<Rightarrow> real \<times> real) \<Rightarrow> bool \<Rightarrow> proto_candidate \<Rightarrow> proto_candidate list
   \<Rightarrow> error + proto_candidate list" where
  "replicate_winner cfg zs mutate_policy winner new_candidates =
     (if int (length new_candidates) < N_CANDIDATES cfg
      then (case proto_mutate cfg winner mutate_policy (zs (length new_candidates)) of
              Inl e \<Rightarrow> Inl e
            | Inr new_cand \<Rightarrow>
                replicate_winner cfg zs mutate_policy winner (new_candidates @ [new_cand]))
      else Inr new_candidates)"
  by pat_completeness auto
termination
  by (relation "measure (\<lambda>(cfg, zs, mp, w, ncs). nat (N_CANDIDATES cfg) - length ncs)") auto

definition run_generation ::
  "config \<Rightarrow> (nat \<Rightarrow> nat list \<Rightarrow> nat list) \<Rightarrow> (nat \<Rightarrow> real \<times> real) \<Rightarrow> bool \<Rightarrow> proto_sim
   \<Rightarrow> error + (proto_candidate \<times> nat list \<times> proto_sim)" where
  "run_generation cfg shuffle zs mutate_policy self =
     (case proto_vote_loop cfg (p_candidates self) (p_voters self) of
        Inl e \<Rightarrow> Inl e
      | Inr ballots \<Rightarrow>
          let cands = form_coalitions cfg shuffle ballots 0 (p_candidates self);
              coalition_sizes = map (\<lambda>c. fcard (winning_coalition c)) cands
          in (case argmax coalition_sizes of
                Inl e \<Rightarrow> Inl e
              | Inr winner_idx \<Rightarrow>
                  (case index cands winner_idx of
                     Inl e \<Rightarrow> Inl e
                   | Inr winner \<Rightarrow>
                       (case replicate_winner cfg zs mutate_policy winner [winner] of
                          Inl e \<Rightarrow> Inl e
                        | Inr new_candidates \<Rightarrow>
                            Inr (winner, coalition_sizes,
                                 self\<lparr>p_candidates := new_candidates\<rparr>)))))"




section \<open>Example configurations\<close>

text \<open>The constants as the source files set them.\<close>

definition default_config :: config where
  "default_config =
     \<lparr>N_VOTERS = 100, N_CANDIDATES = 4, MAX_GENERATIONS = 200, RESOURCE_POOL = 1000,
      PUBLIC_GOODS_MUT_STD = Plus (5 / 100), POLICY_MUT_STD = Plus 2, THETA = 15, TAU = 6 / 10,
      PHI = 3 / 10, WINNING_COALITION_SIZE = 25, RATIO_OF_VOTERS = 1 / 2\<rparr>"

text \<open>The scenario of the specification's testable properties: four voters, two
  candidates, every distance within \<open>THETA\<close>, both thresholds zero.\<close>

definition scenario_config :: config where
  "scenario_config =
     default_config\<lparr>N_VOTERS := 4, N_CANDIDATES := 2, THETA := 100, TAU := 0, PHI := 0\<rparr>"

definition example_sim :: sim where
  "example_sim =
     \<lparr>voters = [\<lparr>ideology = 10, risk_type = ''safe'', included = [False, False]\<rparr>,
                \<lparr>ideology = 10, risk_type = ''safe'', included = [False, False]\<rparr>,
                \<lparr>ideology = 10, risk_type = ''risk'', included = [False, False]\<rparr>,
                \<lparr>ideology = 10, risk_type = ''risk'', included = [False, False]\<rparr>],
      candidates = [\<lparr>c_ideology = 10, alpha = 1 / 2\<rparr>, \<lparr>c_ideology = 60, alpha = 1 / 2\<rparr>]\<rparr>"

definition example_draws :: "nat \<Rightarrow> real \<times> real" where
  "example_draws cid = (1, - 1 / 2)"

definition example_proto_sim :: proto_sim where
  "example_proto_sim =
     \<lparr>p_voters = [\<lparr>p_ideology = 0, p_risk_type = ''safe''\<rparr>,
                  \<lparr>p_ideology = 0, p_risk_type = ''safe''\<rparr>,
                  \<lparr>p_ideology = 0, p_risk_type = ''risk''\<rparr>,
                  \<lparr>p_ideology = 100, p_risk_type = ''risk''\<rparr>],
      p_candidates = [Candidate 40 (1 / 2), Candidate 0 (1 / 2)]\<rparr>"

text \<open>A shuffle that leaves the order as it is.\<close>

definition example_shuffle :: "nat \<Rightarrow> nat list \<Rightarrow> nat list" where
  "example_shuffle idx xs = xs"

text \<open>What \<open>run_generation\<close> returns on the example: the winner (with the supporters
  and the coalition of this generation) and the prototype afterwards.\<close>

definition example_proto_winner :: proto_candidate where
  "example_proto_winner =
     \<lparr>policy = 0, p_alpha = 1 / 2, supporters = fset_of_list [0, 1, 2],
      winning_coalition = fset_of_list [0, 1]\<rparr>"

definition example_proto_next :: proto_sim where
  "example_proto_next =
     \<lparr>p_voters = p_voters example_proto_sim,
      p_candidates = [example_proto_winner,
                      \<lparr>policy = 0, p_alpha = 11 / 20, supporters = {||},
                       winning_coalition = {||}\<rparr>]\<rparr>"

text \<open>What \<open>run_generation_detailed\<close> returns on the example.\<close>

definition example_vote_info :: "vote_info list" where
  "example_vote_info =
     [\<lparr>vi_voter_id = 0, vi_risk_type = ''safe'', vi_utilities = [145, 2645],
       vi_included = [True, True], vi_ballot = 1\<rparr>,
      \<lparr>vi_voter_id = 1, vi_risk_type = ''safe'', vi_utilities = [145, 2645],
       vi_included = [True, True], vi_ballot = 1\<rparr>,
      \<lparr>vi_voter_id = 2, vi_risk_type = ''risk'', vi_utilities = [145, 2645],
       vi_included = [True, True], vi_ballot = 1\<rparr>,
      \<lparr>vi_voter_id = 3, vi_risk_type = ''risk'', vi_utilities = [145, 2645],
       vi_included = [True, True], vi_ballot = 1\<rparr>]"

definition example_next :: sim where
  "example_next =
     \<lparr>voters = [\<lparr>ideology = 10, risk_type = ''safe'', included = [True, True]\<rparr>,
                \<lparr>ideology = 10, risk_type = ''safe'', included = [True, True]\<rparr>,
                \<lparr>ideology = 10, risk_type = ''risk'', included = [True, True]\<rparr>,
                \<lparr>ideology = 10, risk_type = ''risk'', included = [True, True]\<rparr>],
      candidates = [\<lparr>c_ideology = 59, alpha = 11 / 20\<rparr>,
                    \<lparr>c_ideology = 60, alpha = 1 / 2\<rparr>]\<rparr>"







text \<open>One voter: the quota \<^verbatim>\<open>int(0.5 * N_VOTERS)\<close> is zero.\<close>

definition one_voter_config :: config where
  "one_voter_config = scenario_config\<lparr>N_VOTERS := 1\<rparr>"

definition one_voter_sim :: proto_sim where
  "one_voter_sim =
     \<lparr>p_voters = [\<lparr>p_ideology = 0, p_risk_type = ''safe''\<rparr>],
      p_candidates = [Candidate 0 (1 / 2), Candidate 40 (1 / 2)]\<rparr>"

text \<open>What \<open>run_generation\<close> returns there: the winner has the one supporter and an
  empty coalition.\<close>

definition one_voter_winner :: proto_candidate where
  "one_voter_winner =
     \<lparr>policy = 0, p_alpha = 1 / 2, supporters = {|0|}, winning_coalition = {||}\<rparr>"

definition one_voter_next :: proto_sim where
  "one_voter_next =
     \<lparr>p_voters = p_voters one_voter_sim,
      p_candidates = [one_voter_winner,
                      \<lparr>policy = 0, p_alpha = 11 / 20, supporters = {||},
                       winning_coalition = {||}\<rparr>]\<rparr>"








section \<open>Leaf properties\<close>

lemma clip_bounds: "lo \<le> hi \<Longrightarrow> lo \<le> clip x lo hi \<and> clip x lo hi \<le> hi"
  by (simp add: clip_def)

lemma mutate_total:
  "\<not> signbit (PUBLIC_GOODS_MUT_STD cfg) \<Longrightarrow> \<not> signbit (POLICY_MUT_STD cfg) \<Longrightarrow>
   \<exists>c'. mutate cfg c b g = Inr c'"
  by (simp add: mutate_def normal_def)

lemma proto_mutate_total:
  "\<not> signbit (PUBLIC_GOODS_MUT_STD cfg) \<Longrightarrow> \<not> signbit (POLICY_MUT_STD cfg) \<Longrightarrow>
   \<exists>c'. proto_mutate cfg c b g = Inr c'"
  by (simp add: proto_mutate_def normal_def)

lemma mutate_range:
  assumes "mutate cfg c b g = Inr c'"
  shows "0 \<le> alpha c' \<and> alpha c' \<le> 1 \<and> - 100 \<le> c_ideology c' \<and> c_ideology c' \<le> 100"
proof -
  from assms obtain a i where c': "c' = \<lparr>c_ideology = clip i (- 100) 100, alpha = clip a 0 1\<rparr>"
    by (auto simp: mutate_def Let_def split: sum.splits if_splits)
  have "0 \<le> clip a 0 1 \<and> clip a 0 1 \<le> 1" by (rule clip_bounds) simp
  moreover have "- 100 \<le> clip i (- 100) 100 \<and> clip i (- 100) 100 \<le> 100"
    by (rule clip_bounds) simp
  ultimately show ?thesis by (simp add: c')
qed

lemma proto_mutate_range:
  assumes "proto_mutate cfg c b g = Inr c'"
  shows "0 \<le> p_alpha c' \<and> p_alpha c' \<le> 1 \<and> 0 \<le> policy c' \<and> policy c' \<le> 100"
proof -
  from assms obtain a i where c': "c' = Candidate (clip i 0 100) (clip a 0 1)"
    by (auto simp: proto_mutate_def Let_def split: sum.splits if_splits)
  have "0 \<le> clip a 0 1 \<and> clip a 0 1 \<le> 1" by (rule clip_bounds) simp
  moreover have "0 \<le> clip i 0 100 \<and> clip i 0 100 \<le> 100"
    by (rule clip_bounds) simp
  ultimately show ?thesis by (simp add: c' Candidate_def)
qed

lemma proto_mutate_empty:
  "proto_mutate cfg c b g = Inr c' \<Longrightarrow> supporters c' = {||} \<and> winning_coalition c' = {||}"
  by (auto simp: proto_mutate_def Let_def Candidate_def split: sum.splits if_splits)

section \<open>Arg-max and bin counts\<close>

lemma argmax_from_spec:
  "b < i \<Longrightarrow>
   (argmax_from xs i b m = b \<and> (\<forall>x\<in>set xs. x \<le> m)) \<or>
   (i \<le> argmax_from xs i b m \<and> argmax_from xs i b m < i + length xs \<and>
    m < xs ! (argmax_from xs i b m - i) \<and>
    (\<forall>j < argmax_from xs i b m - i. xs ! j < xs ! (argmax_from xs i b m - i)) \<and>
    (\<forall>j < length xs. xs ! j \<le> xs ! (argmax_from xs i b m - i)))"
proof (induction xs arbitrary: i b m)
  case Nil
  then show ?case by simp
next
  case (Cons x xs)
  show ?case
  proof (cases "m < x")
    case True
    let ?r = "argmax_from xs (Suc i) i x"
    have r: "argmax_from (x # xs) i b m = ?r" using True by simp
    from Cons.IH[of i "Suc i" x]
    consider (a) "?r = i" "\<forall>y\<in>set xs. y \<le> x"
      | (b) "Suc i \<le> ?r" "?r < Suc i + length xs" "x < xs ! (?r - Suc i)"
            "\<forall>j < ?r - Suc i. xs ! j < xs ! (?r - Suc i)"
            "\<forall>j < length xs. xs ! j \<le> xs ! (?r - Suc i)"
      by auto
    then show ?thesis
    proof cases
      case a
      have "\<forall>j < length (x # xs). (x # xs) ! j \<le> x"
        using a(2) by (auto simp: nth_Cons')
      with a True show ?thesis unfolding r by simp
    next
      case b
      have e: "(x # xs) ! (?r - i) = xs ! (?r - Suc i)"
        using b(1) by (simp add: nth_Cons')
      have "\<forall>j < ?r - i. (x # xs) ! j < xs ! (?r - Suc i)"
        using b(3,4) by (auto simp: nth_Cons' less_diff_conv)
      moreover have "\<forall>j < length (x # xs). (x # xs) ! j \<le> xs ! (?r - Suc i)"
        using b(3,5) by (auto simp: nth_Cons')
      moreover have "m < xs ! (?r - Suc i)" using True b(3) by simp
      ultimately show ?thesis unfolding r e using b(1,2) by simp
    qed
  next
    case False
    let ?r = "argmax_from xs (Suc i) b m"
    have r: "argmax_from (x # xs) i b m = ?r" using False by simp
    have "b < Suc i" using Cons.prems by simp
    from Cons.IH[OF this, of m]
    consider (a) "?r = b" "\<forall>y\<in>set xs. y \<le> m"
      | (b) "Suc i \<le> ?r" "?r < Suc i + length xs" "m < xs ! (?r - Suc i)"
            "\<forall>j < ?r - Suc i. xs ! j < xs ! (?r - Suc i)"
            "\<forall>j < length xs. xs ! j \<le> xs ! (?r - Suc i)"
      by auto
    then show ?thesis
    proof cases
      case a
      with False show ?thesis unfolding r by auto
    next
      case b
      have e: "(x # xs) ! (?r - i) = xs ! (?r - Suc i)"
        using b(1) by (simp add: nth_Cons')
      have "\<forall>j < ?r - i. (x # xs) ! j < xs ! (?r - Suc i)"
        using b(3,4) False by (auto simp: nth_Cons' less_diff_conv)
      moreover have "\<forall>j < length (x # xs). (x # xs) ! j \<le> xs ! (?r - Suc i)"
        using b(3,5) False by (auto simp: nth_Cons')
      ultimately show ?thesis unfolding r e using b(1,2,3) by simp
    qed
  qed
qed

lemma argmax_Inr:
  assumes "argmax xs = Inr i"
  shows "i < length xs \<and> (\<forall>j < length xs. xs ! j \<le> xs ! i) \<and> (\<forall>j < i. xs ! j < xs ! i)"
proof (cases xs)
  case Nil
  with assms show ?thesis by (simp add: argmax_def)
next
  case (Cons x ys)
  let ?r = "argmax_from ys 1 0 x"
  have i: "i = ?r" using assms Cons by (simp add: argmax_def)
  have "(0::nat) < 1" by simp
  from argmax_from_spec[OF this, of ys x]
  consider (a) "?r = 0" "\<forall>y\<in>set ys. y \<le> x"
    | (b) "1 \<le> ?r" "?r < 1 + length ys" "x < ys ! (?r - 1)"
          "\<forall>j < ?r - 1. ys ! j < ys ! (?r - 1)"
          "\<forall>j < length ys. ys ! j \<le> ys ! (?r - 1)"
    by auto
  then show ?thesis
  proof cases
    case a
    have "\<forall>j < length xs. xs ! j \<le> xs ! 0"
      using a(2) Cons by (auto simp: nth_Cons')
    then show ?thesis using a(1) i Cons by simp
  next
    case b
    have e: "xs ! i = ys ! (?r - 1)" using b(1) i Cons by (simp add: nth_Cons')
    have "\<forall>j < i. xs ! j < ys ! (?r - 1)"
      using b(3,4) i Cons by (auto simp: nth_Cons' less_diff_conv)
    moreover have "\<forall>j < length xs. xs ! j \<le> ys ! (?r - 1)"
      using b(3,5) Cons by (auto simp: nth_Cons')
    ultimately show ?thesis unfolding e using b(2) i Cons by simp
  qed
qed

lemma argmax_total: "xs \<noteq> [] \<Longrightarrow> \<exists>i. argmax xs = Inr i"
  by (cases xs) (simp_all add: argmax_def)

lemma argmax_Inl: "argmax xs = Inl e \<Longrightarrow> xs = [] \<and> e = ValueError"
  by (cases xs) (simp_all add: argmax_def)

lemma fold_max_less: "\<forall>x\<in>set xs. x < n \<Longrightarrow> a < n \<Longrightarrow> fold max xs (a::nat) < n"
  by (induction xs arbitrary: a) auto

lemma bincount_in_range:
  assumes "\<forall>x\<in>set xs. x < nat m" "0 \<le> m"
  shows "bincount xs m = Inr (map (count_list xs) [0 ..< nat m])"
proof (cases "xs = []")
  case True
  then show ?thesis using assms(2) by (simp add: bincount_def)
next
  case False
  then obtain x where "x \<in> set xs" by (cases xs) auto
  with assms(1) have "0 < nat m" by force
  with assms(1) have "fold max xs 0 < nat m" by (rule fold_max_less)
  then have "max (nat m) (Suc (fold max xs 0)) = nat m" by simp
  then show ?thesis using False assms(2) by (simp add: bincount_def)
qed

lemma sum_list_count_list:
  assumes "\<forall>x\<in>set xs. x < n"
  shows "sum_list (map (count_list xs) [0 ..< n]) = length xs"
proof -
  have "sum_list (map (count_list xs) [0 ..< n]) = sum (count_list xs) {0 ..< n}"
    by (simp add: interv_sum_list_conv_sum_set_nat)
  also have "\<dots> = length xs"
    using assms by (intro sum_count_set) auto
  finally show ?thesis .
qed

section \<open>The voter loops of the detailed simulator\<close>

lemma inclusion_Inr:
  "inclusion cfg v cid p ci = Inr (b, v') \<Longrightarrow>
   cid < length (included v) \<and>
   b = (\<bar>ideology v - ci\<bar> \<le> THETA cfg \<and> (if risk_type v = ''risk'' then TAU cfg else PHI cfg) \<le> p) \<and>
   v' = v\<lparr>included := (included v)[cid := b]\<rparr>"
  by (auto simp: inclusion_def Let_def split: if_splits)

lemma utility_Inr:
  "utility cfg v ci ca cid = Inr u \<Longrightarrow>
   N_VOTERS cfg \<noteq> 0 \<and> cid < length (included v) \<and>
   (included v ! cid \<longrightarrow> WINNING_COALITION_SIZE cfg \<noteq> 0) \<and>
   u = (ideology v - ci)\<^sup>2 + ca * (RESOURCE_POOL cfg / real_of_int (N_VOTERS cfg))
       + (if included v ! cid
          then (1 - ca) * (RESOURCE_POOL cfg / real_of_int (WINNING_COALITION_SIZE cfg))
          else 0)"
  by (auto simp: utility_def Let_def split: if_splits)

lemma eval_candidates_Inr:
  "eval_candidates cfg v cid cs utils = Inr (v', utils') \<Longrightarrow>
   ideology v' = ideology v \<and> risk_type v' = risk_type v \<and>
   length (included v') = length (included v) \<and>
   length utils' = length utils + length cs \<and>
   take (length utils) utils' = utils \<and>
   (\<forall>j < cid. included v' ! j = included v ! j) \<and>
   (\<forall>k < length cs.
      included v' ! (cid + k)
        = (\<bar>ideology v - c_ideology (cs ! k)\<bar> \<le> THETA cfg \<and>
           (if risk_type v = ''risk'' then TAU cfg else PHI cfg)
             \<le> real_of_int (WINNING_COALITION_SIZE cfg) / real_of_int (N_VOTERS cfg)) \<and>
      utils' ! (length utils + k)
        = (ideology v - c_ideology (cs ! k))\<^sup>2
          + alpha (cs ! k) * (RESOURCE_POOL cfg / real_of_int (N_VOTERS cfg))
          + (if included v' ! (cid + k)
             then (1 - alpha (cs ! k))
                  * (RESOURCE_POOL cfg / real_of_int (WINNING_COALITION_SIZE cfg))
             else 0))"
proof (induction cs arbitrary: v cid utils)
  case Nil
  then show ?case by simp
next
  case (Cons c cs)
  let ?p = "real_of_int (WINNING_COALITION_SIZE cfg) / real_of_int (N_VOTERS cfg)"
  from Cons.prems obtain b v1 u where
    inc: "inclusion cfg v cid ?p (c_ideology c) = Inr (b, v1)" and
    ut: "utility cfg v1 (c_ideology c) (alpha c) cid = Inr u" and
    rec: "eval_candidates cfg v1 (Suc cid) cs (utils @ [u]) = Inr (v', utils')"
    by (auto simp: Let_def split: if_splits sum.splits)
  note I = inclusion_Inr[OF inc]
  have v1: "ideology v1 = ideology v" "risk_type v1 = risk_type v"
    "length (included v1) = length (included v)" "included v1 ! cid = b"
    "\<forall>j < cid. included v1 ! j = included v ! j"
    using I by auto
  note U = utility_Inr[OF ut]
  note H = Cons.IH[OF rec]
  have len: "length utils' = length utils + length (c # cs)" using H by simp
  have tk: "take (Suc (length utils)) utils' = utils @ [u]" using H by simp
  have tk0: "take (length utils) utils' = utils"
  proof -
    have "take (length utils) (take (Suc (length utils)) utils') = utils"
      unfolding tk by simp
    then show ?thesis by (simp add: min_def)
  qed
  have u0: "utils' ! length utils = u"
  proof -
    have "utils' ! length utils = take (Suc (length utils)) utils' ! length utils" by simp
    also have "\<dots> = u" unfolding tk by simp
    finally show ?thesis .
  qed
  have keep: "\<forall>j < Suc cid. included v' ! j = included v1 ! j" using H by blast
  have cidv: "included v' ! cid = b" using keep v1(4) by simp
  have low: "\<forall>j < cid. included v' ! j = included v ! j" using keep v1(5) by simp
  have main: "\<forall>k < length (c # cs).
      included v' ! (cid + k)
        = (\<bar>ideology v - c_ideology ((c # cs) ! k)\<bar> \<le> THETA cfg \<and>
           (if risk_type v = ''risk'' then TAU cfg else PHI cfg) \<le> ?p) \<and>
      utils' ! (length utils + k)
        = (ideology v - c_ideology ((c # cs) ! k))\<^sup>2
          + alpha ((c # cs) ! k) * (RESOURCE_POOL cfg / real_of_int (N_VOTERS cfg))
          + (if included v' ! (cid + k)
             then (1 - alpha ((c # cs) ! k))
                  * (RESOURCE_POOL cfg / real_of_int (WINNING_COALITION_SIZE cfg))
             else 0)"
  proof (intro allI impI)
    fix k assume k: "k < length (c # cs)"
    show "included v' ! (cid + k)
        = (\<bar>ideology v - c_ideology ((c # cs) ! k)\<bar> \<le> THETA cfg \<and>
           (if risk_type v = ''risk'' then TAU cfg else PHI cfg) \<le> ?p) \<and>
      utils' ! (length utils + k)
        = (ideology v - c_ideology ((c # cs) ! k))\<^sup>2
          + alpha ((c # cs) ! k) * (RESOURCE_POOL cfg / real_of_int (N_VOTERS cfg))
          + (if included v' ! (cid + k)
             then (1 - alpha ((c # cs) ! k))
                  * (RESOURCE_POOL cfg / real_of_int (WINNING_COALITION_SIZE cfg))
             else 0)"
    proof (cases k)
      case 0
      show ?thesis using I U v1 cidv u0 unfolding 0 by simp
    next
      case (Suc k')
      then have k': "k' < length cs" using k by simp
      from H k' have
        "included v' ! (Suc cid + k')
           = (\<bar>ideology v1 - c_ideology (cs ! k')\<bar> \<le> THETA cfg \<and>
              (if risk_type v1 = ''risk'' then TAU cfg else PHI cfg) \<le> ?p) \<and>
         utils' ! (length (utils @ [u]) + k')
           = (ideology v1 - c_ideology (cs ! k'))\<^sup>2
             + alpha (cs ! k') * (RESOURCE_POOL cfg / real_of_int (N_VOTERS cfg))
             + (if included v' ! (Suc cid + k')
                then (1 - alpha (cs ! k'))
                     * (RESOURCE_POOL cfg / real_of_int (WINNING_COALITION_SIZE cfg))
                else 0)"
        by blast
      then show ?thesis unfolding Suc using v1(1,2) by simp
    qed
  qed
  have "ideology v' = ideology v" "risk_type v' = risk_type v"
    "length (included v') = length (included v)"
    using H v1 by simp_all
  with len tk0 low main show ?case by blast
qed

lemma eval_candidates_total:
  "N_VOTERS cfg \<noteq> 0 \<Longrightarrow> WINNING_COALITION_SIZE cfg \<noteq> 0 \<Longrightarrow>
   cid + length cs \<le> length (included v) \<Longrightarrow>
   \<exists>v' utils'. eval_candidates cfg v cid cs utils = Inr (v', utils')"
proof (induction cs arbitrary: v cid utils)
  case Nil
  then show ?case by simp
next
  case (Cons c cs)
  let ?p = "real_of_int (WINNING_COALITION_SIZE cfg) / real_of_int (N_VOTERS cfg)"
  have cid: "cid < length (included v)" using Cons.prems(3) by simp
  then obtain b where inc:
    "inclusion cfg v cid ?p (c_ideology c) = Inr (b, v\<lparr>included := (included v)[cid := b]\<rparr>)"
    by (simp add: inclusion_def Let_def)
  let ?v1 = "v\<lparr>included := (included v)[cid := b]\<rparr>"
  have "\<exists>u. utility cfg ?v1 (c_ideology c) (alpha c) cid = Inr u"
    using cid Cons.prems(1,2) by (simp add: utility_def Let_def)
  then obtain u where ut: "utility cfg ?v1 (c_ideology c) (alpha c) cid = Inr u" ..
  have "Suc cid + length cs \<le> length (included ?v1)" using Cons.prems(3) by simp
  from Cons.IH[OF Cons.prems(1,2) this, of "utils @ [u]"]
  show ?case using inc ut Cons.prems(1) by (simp add: Let_def)
qed

lemma voter_step:
  assumes ev: "eval_candidates cfg (v\<lparr>included := replicate n False\<rparr>) 0 cs [] = Inr (v', utils)"
    and am: "argmax utils = Inr choice"
  shows "ideology v' = ideology v \<and> risk_type v' = risk_type v \<and>
         length (included v') = n \<and> length utils = length cs \<and> choice < length cs \<and>
         (\<forall>j < length cs. utils ! j \<le> utils ! choice) \<and>
         (\<forall>j < choice. utils ! j < utils ! choice) \<and>
         (\<forall>cid < length cs.
            included v' ! cid
              = (\<bar>ideology v - c_ideology (cs ! cid)\<bar> \<le> THETA cfg \<and>
                 (if risk_type v = ''risk'' then TAU cfg else PHI cfg)
                   \<le> real_of_int (WINNING_COALITION_SIZE cfg) / real_of_int (N_VOTERS cfg)) \<and>
            utils ! cid
              = (ideology v - c_ideology (cs ! cid))\<^sup>2
                + alpha (cs ! cid) * (RESOURCE_POOL cfg / real_of_int (N_VOTERS cfg))
                + (if included v' ! cid
                   then (1 - alpha (cs ! cid))
                        * (RESOURCE_POOL cfg / real_of_int (WINNING_COALITION_SIZE cfg))
                   else 0))"
proof -
  note E = eval_candidates_Inr[OF ev]
  note A = argmax_Inr[OF am]
  have len: "length utils = length cs" using E by simp
  have basics: "ideology v' = ideology v" "risk_type v' = risk_type v"
    "length (included v') = n"
    using E by simp_all
  have best: "choice < length cs" "\<forall>j < length cs. utils ! j \<le> utils ! choice"
    "\<forall>j < choice. utils ! j < utils ! choice"
    using A unfolding len by blast+
  have "\<forall>k < length cs.
      included v' ! (0 + k)
        = (\<bar>ideology (v\<lparr>included := replicate n False\<rparr>) - c_ideology (cs ! k)\<bar> \<le> THETA cfg \<and>
           (if risk_type (v\<lparr>included := replicate n False\<rparr>) = ''risk''
            then TAU cfg else PHI cfg)
             \<le> real_of_int (WINNING_COALITION_SIZE cfg) / real_of_int (N_VOTERS cfg)) \<and>
      utils ! (length ([]::real list) + k)
        = (ideology (v\<lparr>included := replicate n False\<rparr>) - c_ideology (cs ! k))\<^sup>2
          + alpha (cs ! k) * (RESOURCE_POOL cfg / real_of_int (N_VOTERS cfg))
          + (if included v' ! (0 + k)
             then (1 - alpha (cs ! k))
                  * (RESOURCE_POOL cfg / real_of_int (WINNING_COALITION_SIZE cfg))
             else 0)"
    using E by blast
  moreover have "ideology (v\<lparr>included := replicate n False\<rparr>) = ideology v"
    "risk_type (v\<lparr>included := replicate n False\<rparr>) = risk_type v"
    by simp_all
  ultimately have each: "\<forall>cid < length cs.
            included v' ! cid
              = (\<bar>ideology v - c_ideology (cs ! cid)\<bar> \<le> THETA cfg \<and>
                 (if risk_type v = ''risk'' then TAU cfg else PHI cfg)
                   \<le> real_of_int (WINNING_COALITION_SIZE cfg) / real_of_int (N_VOTERS cfg)) \<and>
            utils ! cid
              = (ideology v - c_ideology (cs ! cid))\<^sup>2
                + alpha (cs ! cid) * (RESOURCE_POOL cfg / real_of_int (N_VOTERS cfg))
                + (if included v' ! cid
                   then (1 - alpha (cs ! cid))
                        * (RESOURCE_POOL cfg / real_of_int (WINNING_COALITION_SIZE cfg))
                   else 0)"
    by (simp only: add_0 list.size)
  show ?thesis using basics len best each by blast
qed

lemma vote_loop_Inr:
  "vote_loop cfg cs vid vs = Inr (vs', ballots, infos) \<Longrightarrow>
   map ideology vs' = map ideology vs \<and> map risk_type vs' = map risk_type vs \<and>
   map vi_voter_id infos = [vid ..< vid + length vs] \<and>
   map vi_ballot infos = ballots \<and> map vi_included infos = map included vs' \<and>
   map vi_risk_type infos = map risk_type vs \<and>
   list_all2 (\<lambda>v info.
      length (vi_included info) = nat (N_CANDIDATES cfg) \<and>
      length (vi_utilities info) = length cs \<and> vi_ballot info < length cs \<and>
      (\<forall>j < length cs. vi_utilities info ! j \<le> vi_utilities info ! vi_ballot info) \<and>
      (\<forall>j < vi_ballot info. vi_utilities info ! j < vi_utilities info ! vi_ballot info) \<and>
      (\<forall>cid < length cs.
         vi_included info ! cid
           = (\<bar>ideology v - c_ideology (cs ! cid)\<bar> \<le> THETA cfg \<and>
              (if risk_type v = ''risk'' then TAU cfg else PHI cfg)
                \<le> real_of_int (WINNING_COALITION_SIZE cfg) / real_of_int (N_VOTERS cfg)) \<and>
         vi_utilities info ! cid
           = (ideology v - c_ideology (cs ! cid))\<^sup>2
             + alpha (cs ! cid) * (RESOURCE_POOL cfg / real_of_int (N_VOTERS cfg))
             + (if vi_included info ! cid
                then (1 - alpha (cs ! cid))
                     * (RESOURCE_POOL cfg / real_of_int (WINNING_COALITION_SIZE cfg))
                else 0))) vs infos"
proof (induction vs arbitrary: vid vs' ballots infos)
  case Nil
  then show ?case by simp
next
  case (Cons v vs)
  from Cons.prems obtain v' utils choice vs1 ballots1 infos1 where
    ev: "eval_candidates cfg (v\<lparr>included := replicate (nat (N_CANDIDATES cfg)) False\<rparr>) 0 cs []
           = Inr (v', utils)" and
    am: "argmax utils = Inr choice" and
    rec: "vote_loop cfg cs (Suc vid) vs = Inr (vs1, ballots1, infos1)" and
    res: "vs' = v' # vs1" "ballots = choice # ballots1"
         "infos = \<lparr>vi_voter_id = vid, vi_risk_type = risk_type v', vi_utilities = utils,
                   vi_included = included v', vi_ballot = choice\<rparr> # infos1"
    by (auto split: sum.splits)
  note S = voter_step[OF ev am]
  note H = Cons.IH[OF rec]
  have upt: "[vid ..< vid + length (v # vs)] = vid # [Suc vid ..< Suc vid + length vs]"
    by (subst upt_rec) simp
  have hd_ok: "ideology v' = ideology v" "risk_type v' = risk_type v"
    "length (included v') = nat (N_CANDIDATES cfg)"
    using S by blast+
  have tl_ok: "map ideology vs1 = map ideology vs" "map risk_type vs1 = map risk_type vs"
    "map vi_voter_id infos1 = [Suc vid ..< Suc vid + length vs]"
    "map vi_ballot infos1 = ballots1" "map vi_included infos1 = map included vs1"
    "map vi_risk_type infos1 = map risk_type vs"
    using H by blast+
  show ?case unfolding res upt list.map list_all2_Cons vote_info.simps
    using S H hd_ok tl_ok by blast
qed

lemma vote_loop_length:
  "vote_loop cfg cs vid vs = Inr (vs', ballots, infos) \<Longrightarrow>
   length vs' = length vs \<and> length ballots = length vs \<and> length infos = length vs \<and>
   (\<forall>b\<in>set ballots. b < length cs)"
proof (induction vs arbitrary: vid vs' ballots infos)
  case Nil
  then show ?case by simp
next
  case (Cons v vs)
  from Cons.prems obtain v' utils choice vs1 ballots1 infos1 where
    ev: "eval_candidates cfg (v\<lparr>included := replicate (nat (N_CANDIDATES cfg)) False\<rparr>) 0 cs []
           = Inr (v', utils)" and
    am: "argmax utils = Inr choice" and
    rec: "vote_loop cfg cs (Suc vid) vs = Inr (vs1, ballots1, infos1)" and
    res: "vs' = v' # vs1" "ballots = choice # ballots1" "length infos = Suc (length infos1)"
    by (auto split: sum.splits)
  note S = voter_step[OF ev am]
  note H = Cons.IH[OF rec]
  show ?case unfolding res using S H by simp
qed

lemma vote_loop_total:
  assumes "N_VOTERS cfg \<noteq> 0" "WINNING_COALITION_SIZE cfg \<noteq> 0"
    "length cs = nat (N_CANDIDATES cfg)" "cs \<noteq> []"
  shows "\<exists>r. vote_loop cfg cs vid vs = Inr r"
proof (induction vs arbitrary: vid)
  case Nil
  then show ?case by simp
next
  case (Cons v vs)
  let ?v0 = "v\<lparr>included := replicate (nat (N_CANDIDATES cfg)) False\<rparr>"
  have "0 + length cs \<le> length (included ?v0)" using assms(3) by simp
  from eval_candidates_total[OF assms(1,2) this, of "[]"]
  obtain v' utils where ev: "eval_candidates cfg ?v0 0 cs [] = Inr (v', utils)" by blast
  have "length utils = length cs" using eval_candidates_Inr[OF ev] by simp
  then have "utils \<noteq> []" using assms(4) by auto
  then obtain choice where am: "argmax utils = Inr choice" using argmax_total by blast
  obtain r where "vote_loop cfg cs (Suc vid) vs = Inr r" using Cons.IH by blast
  then show ?case using ev am by (cases r) simp
qed

section \<open>Replacement and one generation of the detailed simulator\<close>

lemma replace_losers_Inr:
  "replace_losers cfg zs w cids cs = Inr cs' \<Longrightarrow> distinct cids \<Longrightarrow>
   length cs' = length cs \<and>
   (\<forall>k. k \<notin> set cids \<or> k = w \<longrightarrow> cs' ! k = cs ! k) \<and>
   (\<forall>cid\<in>set cids. cid \<noteq> w \<longrightarrow>
      cid < length cs \<and> w < length cs \<and>
      mutate cfg (cs ! w) True (zs cid) = Inr (cs' ! cid))"
proof (induction cids arbitrary: cs)
  case Nil
  then show ?case by simp
next
  case (Cons cid cids)
  have d: "distinct cids" "cid \<notin> set cids" using Cons.prems(2) by simp_all
  show ?case
  proof (cases "cid = w")
    case True
    then have "replace_losers cfg zs w cids cs = Inr cs'" using Cons.prems(1) by simp
    from Cons.IH[OF this d(1)] True show ?thesis by auto
  next
    case False
    from Cons.prems(1) False obtain c' where
      w: "w < length cs" and
      m: "mutate cfg (cs ! w) True (zs cid) = Inr c'" and
      c: "cid < length cs" and
      rec: "replace_losers cfg zs w cids (cs[cid := c']) = Inr cs'"
      by (auto simp: index_def split: sum.splits if_splits)
    note H = Cons.IH[OF rec d(1)]
    have len: "length cs' = length cs" using H by simp
    have same: "\<forall>k. k \<notin> set (cid # cids) \<or> k = w \<longrightarrow> cs' ! k = cs ! k"
    proof (intro allI impI)
      fix k assume k: "k \<notin> set (cid # cids) \<or> k = w"
      then have "k \<notin> set cids \<or> k = w" by auto
      with H have "cs' ! k = cs[cid := c'] ! k" by blast
      moreover have "k \<noteq> cid" using k False by auto
      ultimately show "cs' ! k = cs ! k" by simp
    qed
    have here: "cs' ! cid = c'"
    proof -
      have "cs' ! cid = cs[cid := c'] ! cid" using H d(2) by blast
      then show ?thesis using c by simp
    qed
    have others: "\<forall>k\<in>set cids. k \<noteq> w \<longrightarrow>
        k < length cs \<and> w < length cs \<and> mutate cfg (cs ! w) True (zs k) = Inr (cs' ! k)"
    proof (intro ballI impI)
      fix k assume k: "k \<in> set cids" "k \<noteq> w"
      with H have "k < length (cs[cid := c'])"
        "mutate cfg (cs[cid := c'] ! w) True (zs k) = Inr (cs' ! k)" by blast+
      moreover have "cs[cid := c'] ! w = cs ! w" using False by simp
      ultimately show "k < length cs \<and> w < length cs \<and>
        mutate cfg (cs ! w) True (zs k) = Inr (cs' ! k)" using w by simp
    qed
    show ?thesis using len same here others w c m by simp
  qed
qed

lemma replace_losers_total:
  "\<not> signbit (PUBLIC_GOODS_MUT_STD cfg) \<Longrightarrow> \<not> signbit (POLICY_MUT_STD cfg) \<Longrightarrow>
   w < length cs \<Longrightarrow> \<forall>cid\<in>set cids. cid < length cs \<Longrightarrow>
   \<exists>cs'. replace_losers cfg zs w cids cs = Inr cs'"
proof (induction cids arbitrary: cs)
  case Nil
  then show ?case by simp
next
  case (Cons cid cids)
  obtain c' where m: "mutate cfg (cs ! w) True (zs cid) = Inr c'"
    using mutate_total[OF Cons.prems(1,2)] by blast
  have "w < length (cs[cid := c'])" "\<forall>k\<in>set cids. k < length (cs[cid := c'])"
    using Cons.prems(3,4) by simp_all
  from Cons.IH[OF Cons.prems(1,2) this]
  obtain cs1 where "replace_losers cfg zs w cids (cs[cid := c']) = Inr cs1" by blast
  moreover have "\<forall>k\<in>set cids. k < length cs" using Cons.prems(4) by simp
  from Cons.IH[OF Cons.prems(1,2,3) this]
  obtain cs2 where "replace_losers cfg zs w cids cs = Inr cs2" by blast
  ultimately show ?case using m Cons.prems(3,4) by (simp add: index_def)
qed

lemma run_generation_detailed_Inr:
  assumes "run_generation_detailed cfg zs st = Inr (vote_info, counts, winner_idx, st')"
  obtains vs' ballots where
    "vote_loop cfg (candidates st) 0 (voters st) = Inr (vs', ballots, vote_info)"
    "bincount ballots (N_CANDIDATES cfg) = Inr counts"
    "argmax counts = Inr winner_idx"
    "replace_losers cfg zs winner_idx [0 ..< nat (N_CANDIDATES cfg)] (candidates st)
       = Inr (candidates st')"
    "voters st' = vs'"
  using assms by (auto simp: run_generation_detailed_def split: sum.splits)

lemma run_generation_detailed_counts:
  assumes run: "run_generation_detailed cfg zs st = Inr (vote_info, counts, winner_idx, st')"
    and nc: "length (candidates st) = nat (N_CANDIDATES cfg)"
  shows "counts = map (count_list (map vi_ballot vote_info)) [0 ..< nat (N_CANDIDATES cfg)]"
    and "length vote_info = length (voters st)"
    and "sum_list counts = length (voters st)"
    and "winner_idx < nat (N_CANDIDATES cfg)"
    and "\<forall>j < nat (N_CANDIDATES cfg). counts ! j \<le> counts ! winner_idx"
    and "\<forall>j < winner_idx. counts ! j < counts ! winner_idx"
proof -
  from run obtain vs' ballots where
    vl: "vote_loop cfg (candidates st) 0 (voters st) = Inr (vs', ballots, vote_info)" and
    bc: "bincount ballots (N_CANDIDATES cfg) = Inr counts" and
    am: "argmax counts = Inr winner_idx"
    by (rule run_generation_detailed_Inr)
  note L = vote_loop_length[OF vl]
  have b: "map vi_ballot vote_info = ballots" using vote_loop_Inr[OF vl] by blast
  have rng: "\<forall>x\<in>set ballots. x < nat (N_CANDIDATES cfg)" using L nc by simp
  have nonneg: "0 \<le> N_CANDIDATES cfg" using bc by (auto simp: bincount_def split: if_splits)
  have "bincount ballots (N_CANDIDATES cfg)
          = Inr (map (count_list ballots) [0 ..< nat (N_CANDIDATES cfg)])"
    using rng nonneg by (rule bincount_in_range)
  with bc show c: "counts = map (count_list (map vi_ballot vote_info)) [0 ..< nat (N_CANDIDATES cfg)]"
    unfolding b by simp
  show "length vote_info = length (voters st)" using L by simp
  have "sum_list counts = length ballots"
    unfolding c b using rng by (rule sum_list_count_list)
  then show "sum_list counts = length (voters st)" using L by simp
  have lc: "length counts = nat (N_CANDIDATES cfg)" unfolding c by simp
  note A = argmax_Inr[OF am]
  show "winner_idx < nat (N_CANDIDATES cfg)" using A lc by simp
  show "\<forall>j < nat (N_CANDIDATES cfg). counts ! j \<le> counts ! winner_idx" using A lc by simp
  show "\<forall>j < winner_idx. counts ! j < counts ! winner_idx" using A by simp
qed

lemma run_generation_detailed_total:
  assumes "N_VOTERS cfg \<noteq> 0" "WINNING_COALITION_SIZE cfg \<noteq> 0"
    "length (candidates st) = nat (N_CANDIDATES cfg)" "1 \<le> N_CANDIDATES cfg"
    "\<not> signbit (PUBLIC_GOODS_MUT_STD cfg)" "\<not> signbit (POLICY_MUT_STD cfg)"
  shows "\<exists>r. run_generation_detailed cfg zs st = Inr r"
proof -
  have ne: "candidates st \<noteq> []" using assms(3,4) by auto
  from vote_loop_total[OF assms(1,2,3) ne, of 0 "voters st"]
  obtain vs' ballots infos where
    vl: "vote_loop cfg (candidates st) 0 (voters st) = Inr (vs', ballots, infos)"
    by (metis prod_cases3)
  note L = vote_loop_length[OF vl]
  have rng: "\<forall>x\<in>set ballots. x < nat (N_CANDIDATES cfg)" using L assms(3) by simp
  have bc: "bincount ballots (N_CANDIDATES cfg)
          = Inr (map (count_list ballots) [0 ..< nat (N_CANDIDATES cfg)])"
    using rng assms(4) by (intro bincount_in_range) simp_all
  let ?counts = "map (count_list ballots) [0 ..< nat (N_CANDIDATES cfg)]"
  have "?counts \<noteq> []" using assms(4) by simp
  then obtain w where am: "argmax ?counts = Inr w" using argmax_total by blast
  have w: "w < length (candidates st)" using argmax_Inr[OF am] assms(3) by simp
  have "\<forall>cid\<in>set [0 ..< nat (N_CANDIDATES cfg)]. cid < length (candidates st)"
    using assms(3) by simp
  from replace_losers_total[OF assms(5,6) w this]
  obtain cs' where
    "replace_losers cfg zs w [0 ..< nat (N_CANDIDATES cfg)] (candidates st) = Inr cs'"
    by blast
  then show ?thesis using vl bc am by (simp add: run_generation_detailed_def)
qed

lemma example_generation:
  "run_generation_detailed scenario_config example_draws example_sim
     = Inr (example_vote_info, [0, 4], 1, example_next)"
  by code_simp

lemma example_sim_sizes:
  "length (voters example_sim) = nat (N_VOTERS scenario_config)"
  "length (candidates example_sim) = nat (N_CANDIDATES scenario_config)"
  by (simp_all add: example_sim_def scenario_config_def default_config_def)

section \<open>The voter loop and the coalitions of the prototype\<close>

lemma coalition_prob_Inr:
  "N_VOTERS cfg \<noteq> 0 \<Longrightarrow>
   coalition_prob cfg c
     = Inr (if winning_coalition c = {||} then 1 / real_of_int (N_VOTERS cfg)
            else real (fcard (winning_coalition c)) / real_of_int (N_VOTERS cfg))"
  by (simp add: coalition_prob_def)

lemma coalition_prob_Inl:
  "coalition_prob cfg c = Inl e \<Longrightarrow> N_VOTERS cfg = 0"
  by (auto simp: coalition_prob_def split: if_splits)

lemma proto_utility_Inr:
  "N_VOTERS cfg \<noteq> 0 \<Longrightarrow>
   proto_utility cfg v c p b
     = Inr (- ((p_ideology v - policy c)\<^sup>2)
            + p_alpha c * (RESOURCE_POOL cfg / real_of_int (N_VOTERS cfg))
            + (if b then (1 - p_alpha c) * (RESOURCE_POOL cfg / real_of_int (N_VOTERS cfg))
               else 0))"
  by (simp add: proto_utility_def Let_def)

lemma proto_eval_candidates_Inr:
  "proto_eval_candidates cfg v cs = Inr us \<Longrightarrow>
   length us = length cs \<and>
   (\<forall>k < length cs. \<exists>p.
      coalition_prob cfg (cs ! k) = Inr p \<and>
      proto_utility cfg v (cs ! k) p (proto_inclusion cfg v (cs ! k) p) = Inr (us ! k))"
proof (induction cs arbitrary: us)
  case Nil
  then show ?case by simp
next
  case (Cons c cs)
  from Cons.prems obtain p u us1 where
    p: "coalition_prob cfg c = Inr p" and
    u: "proto_utility cfg v c p (proto_inclusion cfg v c p) = Inr u" and
    rec: "proto_eval_candidates cfg v cs = Inr us1" and
    res: "us = u # us1"
    by (auto split: sum.splits)
  note H = Cons.IH[OF rec]
  have "\<forall>k < length (c # cs). \<exists>p.
      coalition_prob cfg ((c # cs) ! k) = Inr p \<and>
      proto_utility cfg v ((c # cs) ! k) p (proto_inclusion cfg v ((c # cs) ! k) p)
        = Inr ((u # us1) ! k)"
  proof (intro allI impI)
    fix k assume k: "k < length (c # cs)"
    show "\<exists>p. coalition_prob cfg ((c # cs) ! k) = Inr p \<and>
      proto_utility cfg v ((c # cs) ! k) p (proto_inclusion cfg v ((c # cs) ! k) p)
        = Inr ((u # us1) ! k)"
    proof (cases k)
      case 0
      then show ?thesis using p u by simp
    next
      case (Suc k')
      then have "k' < length cs" using k by simp
      with H show ?thesis unfolding Suc by simp
    qed
  qed
  then show ?case unfolding res using H by simp
qed

lemma proto_eval_candidates_total:
  "N_VOTERS cfg \<noteq> 0 \<Longrightarrow> \<exists>us. proto_eval_candidates cfg v cs = Inr us"
proof (induction cs)
  case Nil
  then show ?case by simp
next
  case (Cons c cs)
  then obtain us where "proto_eval_candidates cfg v cs = Inr us" by blast
  then show ?case
    using Cons.prems by (simp add: coalition_prob_Inr proto_utility_Inr)
qed

lemma proto_vote_loop_Inr:
  "proto_vote_loop cfg cs vs = Inr ballots \<Longrightarrow>
   length ballots = length vs \<and>
   (\<forall>b\<in>set ballots. b < length cs) \<and>
   (\<forall>k < length vs. \<exists>us.
      proto_eval_candidates cfg (vs ! k) cs = Inr us \<and> argmax us = Inr (ballots ! k))"
proof (induction vs arbitrary: ballots)
  case Nil
  then show ?case by simp
next
  case (Cons v vs)
  from Cons.prems obtain us chosen ballots1 where
    ev: "proto_eval_candidates cfg v cs = Inr us" and
    am: "argmax us = Inr chosen" and
    rec: "proto_vote_loop cfg cs vs = Inr ballots1" and
    res: "ballots = chosen # ballots1"
    by (auto split: sum.splits)
  note H = Cons.IH[OF rec]
  have "length us = length cs" using proto_eval_candidates_Inr[OF ev] by simp
  then have ch: "chosen < length cs" using argmax_Inr[OF am] by simp
  have "\<forall>k < length (v # vs). \<exists>us.
      proto_eval_candidates cfg ((v # vs) ! k) cs = Inr us \<and>
      argmax us = Inr ((chosen # ballots1) ! k)"
  proof (intro allI impI)
    fix k assume k: "k < length (v # vs)"
    show "\<exists>us. proto_eval_candidates cfg ((v # vs) ! k) cs = Inr us \<and>
      argmax us = Inr ((chosen # ballots1) ! k)"
    proof (cases k)
      case 0
      then show ?thesis using ev am by simp
    next
      case (Suc k')
      then have "k' < length vs" using k by simp
      with H show ?thesis unfolding Suc by simp
    qed
  qed
  then show ?case unfolding res using H ch by simp
qed

lemma proto_vote_loop_total:
  assumes "N_VOTERS cfg \<noteq> 0" "cs \<noteq> []"
  shows "\<exists>ballots. proto_vote_loop cfg cs vs = Inr ballots"
proof (induction vs)
  case Nil
  then show ?case by simp
next
  case (Cons v vs)
  obtain us where ev: "proto_eval_candidates cfg v cs = Inr us"
    using proto_eval_candidates_total[OF assms(1)] by blast
  have "length us = length cs" using proto_eval_candidates_Inr[OF ev] by simp
  then have "us \<noteq> []" using assms(2) by auto
  then obtain chosen where "argmax us = Inr chosen" using argmax_total by blast
  then show ?case using ev Cons.IH by auto
qed

lemma form_coalitions_length:
  "length (form_coalitions cfg shuffle ballots idx cs) = length cs"
  by (induction cs arbitrary: idx) (simp_all add: Let_def)

lemma form_coalitions_nth:
  "k < length cs \<Longrightarrow>
   form_coalitions cfg shuffle ballots idx cs ! k
     = (cs ! k)\<lparr>supporters :=
                  fset_of_list (filter (\<lambda>i. ballots ! i = idx + k) [0 ..< length ballots]),
                winning_coalition :=
                  fset_of_list
                    (slice_to
                       (shuffle (idx + k)
                          (sorted_list_of_fset
                             (fset_of_list
                                (filter (\<lambda>i. ballots ! i = idx + k) [0 ..< length ballots]))))
                       (py_int ((5 / 10) * real_of_int (N_VOTERS cfg))))\<rparr>"
proof (induction cs arbitrary: idx k)
  case Nil
  then show ?case by simp
next
  case (Cons c cs)
  show ?case
  proof (cases k)
    case 0
    then show ?thesis by (simp add: Let_def)
  next
    case (Suc k')
    then have "k' < length cs" using Cons.prems by simp
    from Cons.IH[OF this, of "Suc idx"] show ?thesis unfolding Suc by (simp add: Let_def)
  qed
qed

lemma fcard_supporters:
  "fcard (fset_of_list (filter (\<lambda>i. ballots ! i = j) [0 ..< length ballots]))
     = count_list ballots j"
proof -
  have s: "fset (fset_of_list (filter (\<lambda>i. ballots ! i = j) [0 ..< length ballots]))
             = {i. i < length ballots \<and> ballots ! i = j}"
    by (auto simp: fset_of_list.rep_eq)
  have "fcard (fset_of_list (filter (\<lambda>i. ballots ! i = j) [0 ..< length ballots]))
          = card {i. i < length ballots \<and> ballots ! i = j}"
    unfolding fcard.rep_eq s ..
  also have "\<dots> = card {i. i < length ballots \<and> j = ballots ! i}"
    by (rule arg_cong[where f = card]) auto
  also have "\<dots> = length (filter ((=) j) ballots)"
    by (simp only: length_filter_conv_card)
  also have "\<dots> = count_list ballots j"
    by (simp only: count_list_eq_length_filter)
  finally show ?thesis .
qed

lemma form_coalitions_supporters:
  "map (\<lambda>c. fcard (supporters c)) (form_coalitions cfg shuffle ballots idx cs)
     = map (count_list ballots) [idx ..< idx + length cs]"
proof (rule nth_equalityI)
  show "length (map (\<lambda>c. fcard (supporters c)) (form_coalitions cfg shuffle ballots idx cs))
          = length (map (count_list ballots) [idx ..< idx + length cs])"
    by (simp add: form_coalitions_length)
next
  fix k
  assume "k < length (map (\<lambda>c. fcard (supporters c))
                        (form_coalitions cfg shuffle ballots idx cs))"
  then have k: "k < length cs" by (simp add: form_coalitions_length)
  have "supporters (form_coalitions cfg shuffle ballots idx cs ! k)
          = fset_of_list (filter (\<lambda>i. ballots ! i = idx + k) [0 ..< length ballots])"
    unfolding form_coalitions_nth[OF k] by simp
  then have "fcard (supporters (form_coalitions cfg shuffle ballots idx cs ! k))
          = count_list ballots (idx + k)"
    by (simp only: fcard_supporters)
  then show "map (\<lambda>c. fcard (supporters c)) (form_coalitions cfg shuffle ballots idx cs) ! k
          = map (count_list ballots) [idx ..< idx + length cs] ! k"
    using k by (simp add: form_coalitions_length)
qed

section \<open>Replication and one generation of the prototype\<close>

declare replicate_winner.simps [simp del]

lemma replicate_winner_Inr:
  "replicate_winner cfg zs mp w ncs = Inr res \<Longrightarrow>
   length res = max (length ncs) (nat (N_CANDIDATES cfg)) \<and>
   take (length ncs) res = ncs \<and>
   (\<forall>k. length ncs \<le> k \<and> k < nat (N_CANDIDATES cfg) \<longrightarrow>
      proto_mutate cfg w mp (zs k) = Inr (res ! k))"
proof (induction cfg zs mp w ncs arbitrary: res rule: replicate_winner.induct)
  case (1 cfg zs mp w ncs)
  show ?case
  proof (cases "int (length ncs) < N_CANDIDATES cfg")
    case False
    then have "res = ncs" using "1.prems" by (subst (asm) replicate_winner.simps) simp
    then show ?thesis using False by auto
  next
    case True
    from "1.prems" True obtain c where
      m: "proto_mutate cfg w mp (zs (length ncs)) = Inr c" and
      rec: "replicate_winner cfg zs mp w (ncs @ [c]) = Inr res"
      by (subst (asm) replicate_winner.simps) (auto split: sum.splits)
    note H = "1.IH"[OF True m rec]
    have len: "length res = max (length ncs) (nat (N_CANDIDATES cfg))"
      using H True by auto
    have tk: "take (Suc (length ncs)) res = ncs @ [c]" using H by simp
    have tk0: "take (length ncs) res = ncs"
    proof -
      have "take (length ncs) (take (Suc (length ncs)) res) = ncs" unfolding tk by simp
      then show ?thesis by (simp add: min_def)
    qed
    have here: "res ! length ncs = c"
    proof -
      have "res ! length ncs = take (Suc (length ncs)) res ! length ncs" by simp
      also have "\<dots> = c" unfolding tk by simp
      finally show ?thesis .
    qed
    have "\<forall>k. length ncs \<le> k \<and> k < nat (N_CANDIDATES cfg) \<longrightarrow>
            proto_mutate cfg w mp (zs k) = Inr (res ! k)"
    proof (intro allI impI)
      fix k assume k: "length ncs \<le> k \<and> k < nat (N_CANDIDATES cfg)"
      show "proto_mutate cfg w mp (zs k) = Inr (res ! k)"
      proof (cases "k = length ncs")
        case True
        then show ?thesis using m here by simp
      next
        case False
        then have "length (ncs @ [c]) \<le> k \<and> k < nat (N_CANDIDATES cfg)" using k by simp
        with H show ?thesis by blast
      qed
    qed
    with len tk0 show ?thesis by blast
  qed
qed

lemma replicate_winner_total:
  "\<not> signbit (PUBLIC_GOODS_MUT_STD cfg) \<Longrightarrow> \<not> signbit (POLICY_MUT_STD cfg) \<Longrightarrow>
   \<exists>res. replicate_winner cfg zs mp w ncs = Inr res"
proof (induction cfg zs mp w ncs rule: replicate_winner.induct)
  case (1 cfg zs mp w ncs)
  show ?case
  proof (cases "int (length ncs) < N_CANDIDATES cfg")
    case False
    then show ?thesis by (subst replicate_winner.simps) simp
  next
    case True
    obtain c where m: "proto_mutate cfg w mp (zs (length ncs)) = Inr c"
      using proto_mutate_total[OF "1.prems"] by blast
    from "1.IH"[OF True m "1.prems"]
    obtain res where "replicate_winner cfg zs mp w (ncs @ [c]) = Inr res" by blast
    then show ?thesis using True m by (subst replicate_winner.simps) simp
  qed
qed

lemma run_generation_Inr:
  assumes "run_generation cfg shuffle zs mp st = Inr (winner, sizes, st')"
  obtains ballots winner_idx where
    "proto_vote_loop cfg (p_candidates st) (p_voters st) = Inr ballots"
    "sizes = map (\<lambda>c. fcard (winning_coalition c))
               (form_coalitions cfg shuffle ballots 0 (p_candidates st))"
    "argmax sizes = Inr winner_idx"
    "winner_idx < length (p_candidates st)"
    "winner = form_coalitions cfg shuffle ballots 0 (p_candidates st) ! winner_idx"
    "replicate_winner cfg zs mp winner [winner] = Inr (p_candidates st')"
    "p_voters st' = p_voters st"
proof -
  from assms obtain ballots winner_idx where
    a: "proto_vote_loop cfg (p_candidates st) (p_voters st) = Inr ballots"
       "argmax (map (\<lambda>c. fcard (winning_coalition c))
                  (form_coalitions cfg shuffle ballots 0 (p_candidates st))) = Inr winner_idx"
       "index (form_coalitions cfg shuffle ballots 0 (p_candidates st)) winner_idx = Inr winner"
       "replicate_winner cfg zs mp winner [winner] = Inr (p_candidates st')"
       "sizes = map (\<lambda>c. fcard (winning_coalition c))
                  (form_coalitions cfg shuffle ballots 0 (p_candidates st))"
       "p_voters st' = p_voters st"
    by (auto simp: run_generation_def Let_def split: sum.splits)
  from a(3) have "winner_idx < length (p_candidates st)"
    "winner = form_coalitions cfg shuffle ballots 0 (p_candidates st) ! winner_idx"
    by (auto simp: index_def form_coalitions_length split: if_splits)
  with a show ?thesis using that by blast
qed

lemma run_generation_total:
  assumes "N_VOTERS cfg \<noteq> 0" "p_candidates st \<noteq> []"
    "\<not> signbit (PUBLIC_GOODS_MUT_STD cfg)" "\<not> signbit (POLICY_MUT_STD cfg)"
  shows "\<exists>r. run_generation cfg shuffle zs mp st = Inr r"
proof -
  obtain ballots where
    vl: "proto_vote_loop cfg (p_candidates st) (p_voters st) = Inr ballots"
    using proto_vote_loop_total[OF assms(1,2)] by blast
  let ?cands = "form_coalitions cfg shuffle ballots 0 (p_candidates st)"
  let ?sizes = "map (\<lambda>c. fcard (winning_coalition c)) ?cands"
  have "?sizes \<noteq> []" using assms(2) form_coalitions_length[of cfg shuffle ballots 0 "p_candidates st"]
    by auto
  then obtain w where am: "argmax ?sizes = Inr w" using argmax_total by blast
  have "w < length ?cands" using argmax_Inr[OF am] by simp
  then have ix: "index ?cands w = Inr (?cands ! w)" by (simp add: index_def)
  obtain res where "replicate_winner cfg zs mp (?cands ! w) [?cands ! w] = Inr res"
    using replicate_winner_total[OF assms(3,4)] by blast
  then show ?thesis using vl am ix by (simp add: run_generation_def Let_def)
qed

lemma example_proto_generation:
  "run_generation scenario_config example_shuffle example_draws True example_proto_sim
     = Inr (example_proto_winner, [1, 2], example_proto_next)"
  by code_simp

lemma scenario_voters_nonzero: "N_VOTERS scenario_config \<noteq> 0"
  by (simp add: scenario_config_def default_config_def)

lemma run_generation_next:
  assumes run: "run_generation cfg shuffle zs mp st = Inr (winner, sizes, st')"
  shows "length (p_candidates st') = max 1 (nat (N_CANDIDATES cfg))"
    and "p_candidates st' ! 0 = winner"
    and "\<forall>k. 1 \<le> k \<and> k < nat (N_CANDIDATES cfg) \<longrightarrow>
           proto_mutate cfg winner mp (zs k) = Inr (p_candidates st' ! k)"
proof -
  from run have rw: "replicate_winner cfg zs mp winner [winner] = Inr (p_candidates st')"
    by (rule run_generation_Inr)
  note R = replicate_winner_Inr[OF rw]
  show "length (p_candidates st') = max 1 (nat (N_CANDIDATES cfg))" using R by simp
  have "take 1 (p_candidates st') = [winner]" using R by simp
  then have "take 1 (p_candidates st') ! 0 = winner" by simp
  then show "p_candidates st' ! 0 = winner" by simp
  show "\<forall>k. 1 \<le> k \<and> k < nat (N_CANDIDATES cfg) \<longrightarrow>
           proto_mutate cfg winner mp (zs k) = Inr (p_candidates st' ! k)"
    using R by simp
qed

lemma vote_info_ballots:
  assumes vl: "vote_loop cfg cs vid vs = Inr (vs', ballots, infos)" and i: "info \<in> set infos"
  shows "vi_ballot info < length cs \<and> length (vi_utilities info) = length cs \<and>
         (\<forall>j < length cs. vi_utilities info ! j \<le> vi_utilities info ! vi_ballot info) \<and>
         (\<forall>j < vi_ballot info. vi_utilities info ! j < vi_utilities info ! vi_ballot info)"
proof -
  let ?P = "\<lambda>(v::voter) info.
      vi_ballot info < length cs \<and> length (vi_utilities info) = length cs \<and>
      (\<forall>j < length cs. vi_utilities info ! j \<le> vi_utilities info ! vi_ballot info) \<and>
      (\<forall>j < vi_ballot info. vi_utilities info ! j < vi_utilities info ! vi_ballot info)"
  have "list_all2 ?P vs infos"
    by (rule list_all2_mono[OF vote_loop_Inr[OF vl, THEN conjunct2, THEN conjunct2,
          THEN conjunct2, THEN conjunct2, THEN conjunct2, THEN conjunct2]]) blast
  moreover from i obtain k where "k < length infos" "infos ! k = info"
    by (auto simp: in_set_conv_nth)
  ultimately have "?P (vs ! k) info" by (auto simp: list_all2_conv_all_nth)
  then show ?thesis by simp
qed

lemma example_proto_sizes:
  "length (p_voters example_proto_sim) = nat (N_VOTERS scenario_config)"
  "length (p_candidates example_proto_sim) = nat (N_CANDIDATES scenario_config)"
  by (simp_all add: example_proto_sim_def scenario_config_def default_config_def)

lemma example_proto_ballots:
  "proto_vote_loop scenario_config (p_candidates example_proto_sim) (p_voters example_proto_sim)
     = Inr [1, 1, 1, 0]"
  by code_simp

section \<open>The rows of one generation\<close>

lemma cand_columns_Inr:
  "cand_columns info cid cs = Inr cols \<Longrightarrow>
   length cols = length cs \<and>
   (\<forall>k < length cs.
      cid + k < length (vi_included info) \<and> cid + k < length (vi_utilities info) \<and>
      cols ! k = (c_ideology (cs ! k), alpha (cs ! k),
                  vi_included info ! (cid + k), vi_utilities info ! (cid + k)))"
proof (induction cs arbitrary: cid cols)
  case Nil
  then show ?case by simp
next
  case (Cons c cs)
  from Cons.prems obtain rest where
    i: "cid < length (vi_included info)" and
    u: "cid < length (vi_utilities info)" and
    rec: "cand_columns info (Suc cid) cs = Inr rest" and
    res: "cols = (c_ideology c, alpha c, vi_included info ! cid, vi_utilities info ! cid) # rest"
    by (auto simp: index_def split: sum.splits if_splits)
  note H = Cons.IH[OF rec]
  have "\<forall>k < length (c # cs).
      cid + k < length (vi_included info) \<and> cid + k < length (vi_utilities info) \<and>
      cols ! k = (c_ideology ((c # cs) ! k), alpha ((c # cs) ! k),
                  vi_included info ! (cid + k), vi_utilities info ! (cid + k))"
  proof (intro allI impI)
    fix k assume k: "k < length (c # cs)"
    show "cid + k < length (vi_included info) \<and> cid + k < length (vi_utilities info) \<and>
      cols ! k = (c_ideology ((c # cs) ! k), alpha ((c # cs) ! k),
                  vi_included info ! (cid + k), vi_utilities info ! (cid + k))"
    proof (cases k)
      case 0
      then show ?thesis using i u res by simp
    next
      case (Suc k')
      then have "k' < length cs" using k by simp
      with H show ?thesis unfolding Suc res by simp
    qed
  qed
  then show ?case using H res by simp
qed


lemma vote_records_of_Inr:
  "vote_records_of gen counts winner st infos = Inr recs \<Longrightarrow>
   length recs = length infos \<and>
   (\<forall>k < length infos.
      vi_voter_id (infos ! k) < length (voters st) \<and>
      vr_generation (recs ! k) = gen \<and>
      vr_voter_id (recs ! k) = vi_voter_id (infos ! k) \<and>
      vr_risk_type (recs ! k) = vi_risk_type (infos ! k) \<and>
      vr_voted_for (recs ! k) = vi_ballot (infos ! k) \<and>
      vr_voter_ideology (recs ! k) = ideology (voters st ! vi_voter_id (infos ! k)) \<and>
      vr_vote_counts (recs ! k) = counts \<and> vr_winner_idx (recs ! k) = winner \<and>
      cand_columns (infos ! k) 0 (candidates st) = Inr (vr_cands (recs ! k)))"
proof (induction infos arbitrary: recs)
  case Nil
  then show ?case by simp
next
  case (Cons info infos)
  from Cons.prems obtain cols rest where
    v: "vi_voter_id info < length (voters st)" and
    c: "cand_columns info 0 (candidates st) = Inr cols" and
    rec: "vote_records_of gen counts winner st infos = Inr rest" and
    res: "recs = \<lparr>vr_generation = gen, vr_voter_id = vi_voter_id info,
                   vr_risk_type = vi_risk_type info, vr_voted_for = vi_ballot info,
                   vr_voter_ideology = ideology (voters st ! vi_voter_id info),
                   vr_vote_counts = counts, vr_winner_idx = winner, vr_cands = cols\<rparr> # rest"
    by (auto simp: index_def split: sum.splits if_splits)
  note H = Cons.IH[OF rec]
  have "\<forall>k < length (info # infos).
      vi_voter_id ((info # infos) ! k) < length (voters st) \<and>
      vr_generation (recs ! k) = gen \<and>
      vr_voter_id (recs ! k) = vi_voter_id ((info # infos) ! k) \<and>
      vr_risk_type (recs ! k) = vi_risk_type ((info # infos) ! k) \<and>
      vr_voted_for (recs ! k) = vi_ballot ((info # infos) ! k) \<and>
      vr_voter_ideology (recs ! k) = ideology (voters st ! vi_voter_id ((info # infos) ! k)) \<and>
      vr_vote_counts (recs ! k) = counts \<and> vr_winner_idx (recs ! k) = winner \<and>
      cand_columns ((info # infos) ! k) 0 (candidates st) = Inr (vr_cands (recs ! k))"
  proof (intro allI impI)
    fix k assume k: "k < length (info # infos)"
    show "vi_voter_id ((info # infos) ! k) < length (voters st) \<and>
      vr_generation (recs ! k) = gen \<and>
      vr_voter_id (recs ! k) = vi_voter_id ((info # infos) ! k) \<and>
      vr_risk_type (recs ! k) = vi_risk_type ((info # infos) ! k) \<and>
      vr_voted_for (recs ! k) = vi_ballot ((info # infos) ! k) \<and>
      vr_voter_ideology (recs ! k) = ideology (voters st ! vi_voter_id ((info # infos) ! k)) \<and>
      vr_vote_counts (recs ! k) = counts \<and> vr_winner_idx (recs ! k) = winner \<and>
      cand_columns ((info # infos) ! k) 0 (candidates st) = Inr (vr_cands (recs ! k))"
    proof (cases k)
      case 0
      then show ?thesis using v c res by simp
    next
      case (Suc k')
      then have "k' < length infos" using k by simp
      with H show ?thesis unfolding Suc res by simp
    qed
  qed
  then show ?case using H res by simp
qed


lemma simulation_step_Inr:
  assumes "simulation_step cfg zs gen st = Inr (vrecs, summ, crecs, st')"
  obtains vote_info counts winner where
    "run_generation_detailed cfg zs st = Inr (vote_info, counts, winner, st')"
    "vote_records_of gen counts winner st' vote_info = Inr vrecs"
    "summ = \<lparr>sr_generation = gen, sr_vote_counts = counts, sr_winner_idx = winner\<rparr>"
    "crecs = candidate_records_of gen winner (candidates st')"
  using assms by (auto simp: simulation_step_def split: sum.splits)

lemma vote_info_nth:
  assumes vl: "vote_loop cfg cs vid vs = Inr (vs', ballots, infos)" and k: "k < length vs"
    and cid: "cid < length cs"
  shows "vi_included (infos ! k) ! cid
           = (\<bar>ideology (vs ! k) - c_ideology (cs ! cid)\<bar> \<le> THETA cfg \<and>
              (if risk_type (vs ! k) = ''risk'' then TAU cfg else PHI cfg)
                \<le> real_of_int (WINNING_COALITION_SIZE cfg) / real_of_int (N_VOTERS cfg))"
    and "vi_utilities (infos ! k) ! cid
           = (ideology (vs ! k) - c_ideology (cs ! cid))\<^sup>2
             + alpha (cs ! cid) * (RESOURCE_POOL cfg / real_of_int (N_VOTERS cfg))
             + (if vi_included (infos ! k) ! cid
                then (1 - alpha (cs ! cid))
                     * (RESOURCE_POOL cfg / real_of_int (WINNING_COALITION_SIZE cfg))
                else 0)"
proof -
  let ?P = "\<lambda>(v::voter) info.
      (\<forall>cid < length cs.
         vi_included info ! cid
           = (\<bar>ideology v - c_ideology (cs ! cid)\<bar> \<le> THETA cfg \<and>
              (if risk_type v = ''risk'' then TAU cfg else PHI cfg)
                \<le> real_of_int (WINNING_COALITION_SIZE cfg) / real_of_int (N_VOTERS cfg)) \<and>
         vi_utilities info ! cid
           = (ideology v - c_ideology (cs ! cid))\<^sup>2
             + alpha (cs ! cid) * (RESOURCE_POOL cfg / real_of_int (N_VOTERS cfg))
             + (if vi_included info ! cid
                then (1 - alpha (cs ! cid))
                     * (RESOURCE_POOL cfg / real_of_int (WINNING_COALITION_SIZE cfg))
                else 0))"
  have "list_all2 ?P vs infos"
    by (rule list_all2_mono[OF vote_loop_Inr[OF vl, THEN conjunct2, THEN conjunct2,
          THEN conjunct2, THEN conjunct2, THEN conjunct2, THEN conjunct2]]) blast
  then have "?P (vs ! k) (infos ! k)" using k by (simp add: list_all2_conv_all_nth)
  with cid show
    "vi_included (infos ! k) ! cid
           = (\<bar>ideology (vs ! k) - c_ideology (cs ! cid)\<bar> \<le> THETA cfg \<and>
              (if risk_type (vs ! k) = ''risk'' then TAU cfg else PHI cfg)
                \<le> real_of_int (WINNING_COALITION_SIZE cfg) / real_of_int (N_VOTERS cfg))"
    "vi_utilities (infos ! k) ! cid
           = (ideology (vs ! k) - c_ideology (cs ! cid))\<^sup>2
             + alpha (cs ! cid) * (RESOURCE_POOL cfg / real_of_int (N_VOTERS cfg))
             + (if vi_included (infos ! k) ! cid
                then (1 - alpha (cs ! cid))
                     * (RESOURCE_POOL cfg / real_of_int (WINNING_COALITION_SIZE cfg))
                else 0)"
    by blast+
qed

lemma example_step:
  "simulation_step scenario_config example_draws 0 example_sim
     = Inr (map (\<lambda>(vid, rt).
                   \<lparr>vr_generation = 0, vr_voter_id = vid, vr_risk_type = rt, vr_voted_for = 1,
                    vr_voter_ideology = 10, vr_vote_counts = [0, 4], vr_winner_idx = 1,
                    vr_cands = [(59, 11 / 20, True, 145), (60, 1 / 2, True, 2645)]\<rparr>)
              [(0, ''safe''), (1, ''safe''), (2, ''risk''), (3, ''risk'')],
            \<lparr>sr_generation = 0, sr_vote_counts = [0, 4], sr_winner_idx = 1\<rparr>,
            [\<lparr>cr_generation = 0, cr_candidate_id = 0, cr_ideology = 59, cr_alpha = 11 / 20,
              cr_is_winner = False\<rparr>,
             \<lparr>cr_generation = 0, cr_candidate_id = 1, cr_ideology = 60, cr_alpha = 1 / 2,
              cr_is_winner = True\<rparr>],
            example_next)"
  by code_simp

section \<open>The degenerate scenario\<close>

lemma proto_eval_candidates_scenario:
  assumes "0 < N_VOTERS cfg" "TAU cfg \<le> 0" "PHI cfg \<le> 0"
  shows "\<forall>c\<in>set cs. \<bar>p_ideology v - policy c\<bar> \<le> THETA cfg \<Longrightarrow>
         proto_eval_candidates cfg v cs
           = Inr (map (\<lambda>c. - ((p_ideology v - policy c)\<^sup>2)
                            + RESOURCE_POOL cfg / real_of_int (N_VOTERS cfg)) cs)"
proof (induction cs)
  case Nil
  then show ?case by simp
next
  case (Cons c cs)
  have n: "N_VOTERS cfg \<noteq> 0" using assms(1) by simp
  let ?p = "if winning_coalition c = {||} then 1 / real_of_int (N_VOTERS cfg)
            else real (fcard (winning_coalition c)) / real_of_int (N_VOTERS cfg)"
  have p: "coalition_prob cfg c = Inr ?p" using n by (rule coalition_prob_Inr)
  have p0: "0 \<le> ?p" using assms(1) by simp
  have "(if p_risk_type v = ''risk'' then TAU cfg else PHI cfg) \<le> 0"
    using assms(2,3) by simp
  then have thr: "(if p_risk_type v = ''risk'' then TAU cfg else PHI cfg) \<le> ?p"
    using p0 by (rule order_trans)
  have "\<bar>p_ideology v - policy c\<bar> \<le> THETA cfg" using Cons.prems by simp
  with thr have inc: "proto_inclusion cfg v c ?p"
    unfolding proto_inclusion_def Let_def by blast
  have "proto_utility cfg v c ?p True
          = Inr (- ((p_ideology v - policy c)\<^sup>2)
                 + p_alpha c * (RESOURCE_POOL cfg / real_of_int (N_VOTERS cfg))
                 + (1 - p_alpha c) * (RESOURCE_POOL cfg / real_of_int (N_VOTERS cfg)))"
    using proto_utility_Inr[OF n, of v c ?p True] by simp
  moreover have "- ((p_ideology v - policy c)\<^sup>2)
                 + p_alpha c * (RESOURCE_POOL cfg / real_of_int (N_VOTERS cfg))
                 + (1 - p_alpha c) * (RESOURCE_POOL cfg / real_of_int (N_VOTERS cfg))
               = - ((p_ideology v - policy c)\<^sup>2)
                 + RESOURCE_POOL cfg / real_of_int (N_VOTERS cfg)"
  proof -
    have g: "\<And>d a x :: real. d + a * x + (1 - a) * x = d + x"
      by (simp add: algebra_simps)
    show ?thesis by (rule g)
  qed
  ultimately have u: "proto_utility cfg v c ?p (proto_inclusion cfg v c ?p)
          = Inr (- ((p_ideology v - policy c)\<^sup>2)
                 + RESOURCE_POOL cfg / real_of_int (N_VOTERS cfg))"
    using inc by simp
  have rec: "proto_eval_candidates cfg v cs
           = Inr (map (\<lambda>c. - ((p_ideology v - policy c)\<^sup>2)
                            + RESOURCE_POOL cfg / real_of_int (N_VOTERS cfg)) cs)"
    using Cons by simp
  show ?case
    unfolding proto_eval_candidates.simps p sum.case u rec list.map ..
qed

lemma vote_info_all_included:
  assumes vl: "vote_loop cfg cs vid vs = Inr (vs', ballots, infos)" and k: "k < length vs"
    and cid: "cid < length cs"
    and near: "\<forall>v\<in>set vs. \<forall>c\<in>set cs. \<bar>ideology v - c_ideology c\<bar> \<le> THETA cfg"
    and tau: "TAU cfg \<le> real_of_int (WINNING_COALITION_SIZE cfg) / real_of_int (N_VOTERS cfg)"
    and phi: "PHI cfg \<le> real_of_int (WINNING_COALITION_SIZE cfg) / real_of_int (N_VOTERS cfg)"
  shows "vi_included (infos ! k) ! cid \<and>
         vi_utilities (infos ! k) ! cid
           = (ideology (vs ! k) - c_ideology (cs ! cid))\<^sup>2
             + (alpha (cs ! cid) * (RESOURCE_POOL cfg / real_of_int (N_VOTERS cfg))
                + (1 - alpha (cs ! cid))
                  * (RESOURCE_POOL cfg / real_of_int (WINNING_COALITION_SIZE cfg)))"
proof -
  have "vs ! k \<in> set vs" "cs ! cid \<in> set cs" using k cid by simp_all
  with near have d: "\<bar>ideology (vs ! k) - c_ideology (cs ! cid)\<bar> \<le> THETA cfg" by blast
  have t: "(if risk_type (vs ! k) = ''risk'' then TAU cfg else PHI cfg)
             \<le> real_of_int (WINNING_COALITION_SIZE cfg) / real_of_int (N_VOTERS cfg)"
    using tau phi by simp
  have inc: "vi_included (infos ! k) ! cid"
    unfolding vote_info_nth(1)[OF vl k cid] using d t by blast
  show ?thesis using vote_info_nth(2)[OF vl k cid] inc by simp
qed

lemma scenario_values:
  "N_VOTERS scenario_config = 4" "N_CANDIDATES scenario_config = 2"
  "THETA scenario_config = 100" "TAU scenario_config = 0" "PHI scenario_config = 0"
  "RESOURCE_POOL scenario_config = 1000" "WINNING_COALITION_SIZE scenario_config = 25"
  by (simp_all add: scenario_config_def default_config_def)

lemma example_sim_near:
  "\<forall>v\<in>set (voters example_sim). \<forall>c\<in>set (candidates example_sim).
     \<bar>ideology v - c_ideology c\<bar> \<le> THETA scenario_config"
  by (simp add: example_sim_def scenario_values)

lemma example_proto_sim_near:
  "\<forall>v\<in>set (p_voters example_proto_sim). \<forall>c\<in>set (p_candidates example_proto_sim).
     \<bar>p_ideology v - policy c\<bar> \<le> THETA scenario_config"
  by (simp add: example_proto_sim_def scenario_values Candidate_def)

section \<open>Whole runs: when they return and when they abort\<close>




























lemma simulation_loop_grows:
  "simulation_loop cfg zs gens st (a, b, c) = Inr (V, S, C, st_end) \<Longrightarrow>
   set a \<subseteq> set V \<and> set b \<subseteq> set S \<and> set c \<subseteq> set C"
proof (induction gens arbitrary: st a b c)
  case Nil
  then show ?case by simp
next
  case (Cons gen gens)
  from Cons.prems obtain vrecs summ crecs st' where
    rec: "simulation_loop cfg zs gens st' (a @ vrecs, b @ [summ], c @ crecs)
            = Inr (V, S, C, st_end)"
    by (auto split: sum.splits)
  from Cons.IH[OF rec] show ?case by simp
qed

lemma simulation_step_keeps_size:
  assumes "simulation_step cfg zs gen st = Inr (vrecs, summ, crecs, st')"
  shows "length (candidates st') = length (candidates st)"
proof -
  from assms obtain vote_info counts winner where
    run: "run_generation_detailed cfg zs st = Inr (vote_info, counts, winner, st')"
    by (rule simulation_step_Inr)
  from run have
    rl: "replace_losers cfg zs winner [0 ..< nat (N_CANDIDATES cfg)] (candidates st)
           = Inr (candidates st')"
    by (rule run_generation_detailed_Inr)
  have "distinct [0 ..< nat (N_CANDIDATES cfg)]" by simp
  from replace_losers_Inr[OF rl this] show ?thesis by simp
qed

lemma simulation_loop_emits:
  "simulation_loop cfg zs gens st (a, b, c) = Inr (V, S, C, st_end) \<Longrightarrow> g \<in> set gens \<Longrightarrow>
   \<exists>st_g vrecs summ crecs st_g'.
      simulation_step cfg (zs g) g st_g = Inr (vrecs, summ, crecs, st_g') \<and>
      length (candidates st_g) = length (candidates st) \<and>
      set vrecs \<subseteq> set V \<and> summ \<in> set S \<and> set crecs \<subseteq> set C"
proof (induction gens arbitrary: st a b c)
  case Nil
  then show ?case by simp
next
  case (Cons gen gens)
  from Cons.prems(1) obtain vrecs summ crecs st' where
    step: "simulation_step cfg (zs gen) gen st = Inr (vrecs, summ, crecs, st')" and
    rec: "simulation_loop cfg zs gens st' (a @ vrecs, b @ [summ], c @ crecs)
            = Inr (V, S, C, st_end)"
    by (auto split: sum.splits)
  note size = simulation_step_keeps_size[OF step]
  show ?case
  proof (cases "g = gen")
    case True
    have "set vrecs \<subseteq> set V \<and> summ \<in> set S \<and> set crecs \<subseteq> set C"
      using simulation_loop_grows[OF rec] by simp
    with step True show ?thesis by blast
  next
    case False
    then have "g \<in> set gens" using Cons.prems(2) by simp
    from Cons.IH[OF rec this] size show ?thesis by simp
  qed
qed

lemma run_simulation_detailed_emits:
  assumes "run_simulation_detailed cfg zs st = Inr (V, S, C, st_end)"
    and "g < nat (MAX_GENERATIONS cfg)"
  shows "\<exists>st_g vrecs summ crecs st_g'.
      simulation_step cfg (zs g) g st_g = Inr (vrecs, summ, crecs, st_g') \<and>
      length (candidates st_g) = length (candidates st) \<and>
      set vrecs \<subseteq> set V \<and> summ \<in> set S \<and> set crecs \<subseteq> set C"
proof -
  have "g \<in> set [0 ..< nat (MAX_GENERATIONS cfg)]" using assms(2) by simp
  with assms(1) show ?thesis
    unfolding run_simulation_detailed_def by (rule simulation_loop_emits)
qed














section \<open>The winner's coalition in the prototype\<close>

lemma quota_positive:
  assumes "2 \<le> n"
  shows "1 \<le> py_int ((5 / 10) * real_of_int n)"
proof -
  have "(1::real) \<le> (5 / 10) * real_of_int n" using assms by simp
  then have "1 \<le> \<lfloor>(5 / 10) * real_of_int n\<rfloor>" by (simp add: le_floor_iff)
  moreover have "(0::real) \<le> (5 / 10) * real_of_int n" using assms by simp
  ultimately show ?thesis by (simp add: py_int_def)
qed

lemma fcard_positive: "A \<noteq> {||} \<Longrightarrow> 1 \<le> fcard A"
proof -
  assume "A \<noteq> {||}"
  then have "fcard A \<noteq> 0" by simp
  then show ?thesis by (simp only: One_nat_def Suc_le_eq neq0_conv)
qed

lemma quota_one_voter: "py_int ((5 / 10) * real_of_int 1) = 0"
  by (simp add: py_int_def)

lemma coalition_of_first_ballot:
  assumes b: "ballots \<noteq> []" and r: "ballots ! 0 < length cs"
    and q: "1 \<le> py_int ((5 / 10) * real_of_int (N_VOTERS cfg))"
    and sh: "\<forall>idx xs. set (shuffle idx xs) = set xs"
  shows "winning_coalition (form_coalitions cfg shuffle ballots 0 cs ! (ballots ! 0)) \<noteq> {||}"
proof -
  let ?j = "ballots ! 0"
  let ?supp = "fset_of_list (filter (\<lambda>i. ballots ! i = ?j) [0 ..< length ballots])"
  let ?l = "shuffle ?j (sorted_list_of_fset ?supp)"
  let ?q = "py_int ((5 / 10) * real_of_int (N_VOTERS cfg))"
  have "0 < length ballots" using b by simp
  then have "0 \<in> set (filter (\<lambda>i. ballots ! i = ?j) [0 ..< length ballots])" by simp
  then have "0 |\<in>| ?supp" by (simp only: fset_of_list_elem)
  then have "0 \<in> set (sorted_list_of_fset ?supp)" by simp
  then have "0 \<in> set ?l" using sh by blast
  then have ne: "?l \<noteq> []" by auto
  have "slice_to ?l ?q = take (nat ?q) ?l" using q by (simp add: slice_to_def)
  moreover have "0 < nat ?q" using q by simp
  ultimately have "slice_to ?l ?q \<noteq> []" using ne by (cases ?l; cases "nat ?q") simp_all
  then have "fset_of_list (slice_to ?l ?q) \<noteq> {||}"
    by (cases "slice_to ?l ?q") simp_all
  moreover have "winning_coalition (form_coalitions cfg shuffle ballots 0 cs ! ?j)
                   = fset_of_list (slice_to ?l ?q)"
    unfolding form_coalitions_nth[OF r] by simp
  ultimately show ?thesis by simp
qed

lemma winner_coalition_nonempty:
  assumes run: "run_generation cfg shuffle zs mp st = Inr (winner, sizes, st')"
    and n: "2 \<le> N_VOTERS cfg" and v: "p_voters st \<noteq> []"
    and sh: "\<forall>idx xs. set (shuffle idx xs) = set xs"
  shows "winning_coalition winner \<noteq> {||}"
proof -
  from run obtain ballots winner_idx where
    vl: "proto_vote_loop cfg (p_candidates st) (p_voters st) = Inr ballots" and
    sz: "sizes = map (\<lambda>c. fcard (winning_coalition c))
                   (form_coalitions cfg shuffle ballots 0 (p_candidates st))" and
    am: "argmax sizes = Inr winner_idx" and
    wi: "winner_idx < length (p_candidates st)" and
    w: "winner = form_coalitions cfg shuffle ballots 0 (p_candidates st) ! winner_idx"
    by (rule run_generation_Inr)
  let ?cands = "form_coalitions cfg shuffle ballots 0 (p_candidates st)"
  note V = proto_vote_loop_Inr[OF vl]
  have lb: "length ballots = length (p_voters st)" using V by simp
  then have b: "ballots \<noteq> []" using v by auto
  then have "ballots ! 0 \<in> set ballots" by simp
  then have r: "ballots ! 0 < length (p_candidates st)" using V by blast
  have ne: "winning_coalition (?cands ! (ballots ! 0)) \<noteq> {||}"
    by (rule coalition_of_first_ballot[OF b r quota_positive[OF n] sh])
  have "sizes ! (ballots ! 0) = fcard (winning_coalition (?cands ! (ballots ! 0)))"
    unfolding sz using r by (simp add: form_coalitions_length)
  then have one: "1 \<le> sizes ! (ballots ! 0)"
    using fcard_positive[OF ne] by (simp only:)
  have ls: "length sizes = length (p_candidates st)"
    unfolding sz by (simp add: form_coalitions_length)
  have "sizes ! (ballots ! 0) \<le> sizes ! winner_idx"
    using argmax_Inr[OF am] r ls by simp
  then have "1 \<le> sizes ! winner_idx" using one by simp
  moreover have "sizes ! winner_idx = fcard (winning_coalition winner)"
    unfolding sz w using wi by (simp add: form_coalitions_length)
  ultimately have "1 \<le> fcard (winning_coalition winner)" by (simp only:)
  then show ?thesis by (auto simp: fcard_fempty)
qed

lemma winner_coalition_empty:
  assumes run: "run_generation cfg shuffle zs mp st = Inr (winner, sizes, st')"
    and n: "N_VOTERS cfg = 1"
  shows "winning_coalition winner = {||}"
proof -
  from run obtain ballots winner_idx where
    wi: "winner_idx < length (p_candidates st)" and
    w: "winner = form_coalitions cfg shuffle ballots 0 (p_candidates st) ! winner_idx"
    by (rule run_generation_Inr)
  show ?thesis
    unfolding w form_coalitions_nth[OF wi] n quota_one_voter by (simp add: slice_to_def)
qed

lemma one_voter_generation:
  "run_generation one_voter_config example_shuffle example_draws True one_voter_sim
     = Inr (one_voter_winner, [0, 0], one_voter_next)"
  by code_simp

lemma one_voter_values:
  "N_VOTERS one_voter_config = 1"
  "length (p_voters one_voter_sim) = nat (N_VOTERS one_voter_config)"
  "py_int ((5 / 10) * real_of_int (N_VOTERS one_voter_config)) = 0"
  "p_candidates one_voter_next ! 0 = one_voter_winner"
  "fcard (supporters one_voter_winner) = 1"
  "real (fcard (winning_coalition one_voter_winner))
     / real_of_int (N_VOTERS one_voter_config) = 0"
  by (simp_all add: one_voter_config_def one_voter_sim_def one_voter_next_def
        one_voter_winner_def scenario_config_def default_config_def py_int_def
        fcard_finsert_if)

lemma one_voter_estimates:
  "winning_coalition (p_candidates one_voter_next ! 0) = {||}"
  "coalition_prob one_voter_config (p_candidates one_voter_next ! 0) = Inr 1"
  "coalition_prob one_voter_config (p_candidates one_voter_next ! 1) = Inr 1"
  by (simp_all add: coalition_prob_def one_voter_values(1) one_voter_next_def
        one_voter_winner_def)

lemma scenario_population:
  "2 \<le> N_VOTERS scenario_config" "p_voters example_proto_sim \<noteq> []"
  by (simp_all add: scenario_config_def default_config_def example_proto_sim_def)

lemma example_shuffle_permutes: "\<forall>idx xs. set (example_shuffle idx xs) = set xs"
  by (simp add: example_shuffle_def)

section \<open>Claims about single calls\<close>

text \<open>
  Claim C5. Whatever the parent and whatever the normal samples, an offspring returned
  by \<open>mutate\<close> has \<open>alpha\<close> in \<open>[0, 1]\<close> and an ideology in \<open>[-100, 100]\<close> (detailed
  simulator) or a policy in \<open>[0, 100]\<close> (prototype); with mutation standard
  deviations whose sign bit is clear (non-negative, and not \<^verbatim>\<open>-0.0\<close>) \<open>mutate\<close>
  does return an offspring. The parent is arbitrary, so
  the bounds hold along every sequence of mutations, and at the boundaries
  \<open>alpha = 1\<close> and \<open>alpha = 0\<close> for samples of any size.
\<close>

theorem mutate_offspring_in_domain:
  "(\<forall>c'. mutate cfg c b g = Inr c' \<longrightarrow>
      0 \<le> alpha c' \<and> alpha c' \<le> 1 \<and> - 100 \<le> c_ideology c' \<and> c_ideology c' \<le> 100) \<and>
   (\<forall>pc'. proto_mutate cfg pc b g = Inr pc' \<longrightarrow>
      0 \<le> p_alpha pc' \<and> p_alpha pc' \<le> 1 \<and> 0 \<le> policy pc' \<and> policy pc' \<le> 100) \<and>
   (\<not> signbit (PUBLIC_GOODS_MUT_STD cfg) \<and> \<not> signbit (POLICY_MUT_STD cfg) \<longrightarrow>
      (\<exists>c'. mutate cfg c b g = Inr c') \<and> (\<exists>pc'. proto_mutate cfg pc b g = Inr pc'))"
  using mutate_range proto_mutate_range mutate_total proto_mutate_total by blast

theorem mutate_offspring_in_domain_witness:
  "mutate default_config \<lparr>c_ideology = 100, alpha = 1\<rparr> True (1000000, 1000000)
     = Inr \<lparr>c_ideology = 100, alpha = 1\<rparr> \<and>
   proto_mutate default_config (Candidate 0 0) True (- 1000000, - 1000000)
     = Inr (Candidate 0 0) \<and>
   \<not> signbit (PUBLIC_GOODS_MUT_STD default_config) \<and>
   \<not> signbit (POLICY_MUT_STD default_config) \<and>
   alpha \<lparr>c_ideology = 100, alpha = 1\<rparr> \<le> 1 \<and> 0 \<le> p_alpha (Candidate 0 0)"
  using mutate_offspring_in_domain
          [of default_config "\<lparr>c_ideology = 100, alpha = 1\<rparr>" True "(1000000, 1000000)"
              "Candidate 0 0"]
  by (simp add: mutate_def proto_mutate_def normal_def clip_def default_config_def
                Candidate_def)

text \<open>
  Claim C6. \<open>inclusion\<close> returns true exactly when the absolute ideological distance
  between voter and candidate is at most \<open>THETA\<close> and the coalition-probability
  estimate is at least the voter's threshold: \<open>TAU\<close> for risk type \<open>risk\<close>, \<open>PHI\<close>
  for \<open>safe\<close>. In the detailed simulator the call also stores the flag, which needs
  \<open>cid\<close> to be an index of the voter's flag list.
\<close>

theorem inclusion_iff_close_and_confident:
  "(p_risk_type pv = ''risk'' \<longrightarrow>
      proto_inclusion cfg pv pc p
        = (\<bar>p_ideology pv - policy pc\<bar> \<le> THETA cfg \<and> TAU cfg \<le> p)) \<and>
   (p_risk_type pv = ''safe'' \<longrightarrow>
      proto_inclusion cfg pv pc p
        = (\<bar>p_ideology pv - policy pc\<bar> \<le> THETA cfg \<and> PHI cfg \<le> p)) \<and>
   (cid < length (included v) \<and> risk_type v = ''risk'' \<longrightarrow>
      (\<exists>v'. inclusion cfg v cid p ci
              = Inr (\<bar>ideology v - ci\<bar> \<le> THETA cfg \<and> TAU cfg \<le> p, v'))) \<and>
   (cid < length (included v) \<and> risk_type v = ''safe'' \<longrightarrow>
      (\<exists>v'. inclusion cfg v cid p ci
              = Inr (\<bar>ideology v - ci\<bar> \<le> THETA cfg \<and> PHI cfg \<le> p, v')))"
  by (simp add: proto_inclusion_def inclusion_def Let_def)

theorem inclusion_iff_close_and_confident_witness:
  "proto_inclusion default_config \<lparr>p_ideology = 50, p_risk_type = ''risk''\<rparr>
     (Candidate 40 (1 / 2)) (6 / 10) \<and>
   \<not> proto_inclusion default_config \<lparr>p_ideology = 50, p_risk_type = ''risk''\<rparr>
     (Candidate 40 (1 / 2)) (5 / 10) \<and>
   inclusion default_config \<lparr>ideology = 50, risk_type = ''safe'', included = [False, False]\<rparr>
     1 (1 / 4) 66
     = Inr (False, \<lparr>ideology = 50, risk_type = ''safe'', included = [False, False]\<rparr>) \<and>
   inclusion default_config \<lparr>ideology = 50, risk_type = ''safe'', included = [False, False]\<rparr>
     1 (3 / 10) 65
     = Inr (True, \<lparr>ideology = 50, risk_type = ''safe'', included = [False, True]\<rparr>)"
  using inclusion_iff_close_and_confident
          [of "\<lparr>p_ideology = 50, p_risk_type = ''risk''\<rparr>" default_config
              "Candidate 40 (1 / 2)" "6 / 10" 1
              "\<lparr>ideology = 50, risk_type = ''safe'', included = [False, False]\<rparr>" 65]
  by (simp add: proto_inclusion_def inclusion_def Let_def default_config_def Candidate_def)

section \<open>Claims about one generation of the detailed simulator\<close>

text \<open>
  Claim C4. Under the plurality rule of the detailed simulator the winning candidate's
  record is carried into the next generation exactly: the winner's slot holds the same
  ideology and alpha after \<open>run_generation_detailed\<close> as before, the population keeps
  its size, and every other slot holds a mutation of the winner made from that slot's
  own normal samples.
\<close>

theorem rule_A_winner_persists:
  assumes "run_generation_detailed cfg zs st = Inr (vote_info, counts, winner_idx, st')"
    and "length (candidates st) = nat (N_CANDIDATES cfg)"
  shows "winner_idx < length (candidates st) \<and>
         length (candidates st') = length (candidates st) \<and>
         candidates st' ! winner_idx = candidates st ! winner_idx \<and>
         (\<forall>cid < length (candidates st). cid \<noteq> winner_idx \<longrightarrow>
            mutate cfg (candidates st ! winner_idx) True (zs cid) = Inr (candidates st' ! cid))"
proof -
  from assms(1) have
    rl: "replace_losers cfg zs winner_idx [0 ..< nat (N_CANDIDATES cfg)] (candidates st)
           = Inr (candidates st')"
    by (rule run_generation_detailed_Inr)
  have "distinct [0 ..< nat (N_CANDIDATES cfg)]" by simp
  note R = replace_losers_Inr[OF rl this]
  have w: "winner_idx < length (candidates st)"
    using run_generation_detailed_counts(4)[OF assms] assms(2) by simp
  have "\<forall>cid < length (candidates st). cid \<noteq> winner_idx \<longrightarrow>
          mutate cfg (candidates st ! winner_idx) True (zs cid) = Inr (candidates st' ! cid)"
    using R assms(2) by simp
  then show ?thesis using R w by simp
qed

theorem rule_A_winner_persists_witness:
  "run_generation_detailed scenario_config example_draws example_sim
     = Inr (example_vote_info, [0, 4], 1, example_next) \<and>
   length (candidates example_sim) = nat (N_CANDIDATES scenario_config) \<and>
   candidates example_sim ! 1 = \<lparr>c_ideology = 60, alpha = 1 / 2\<rparr> \<and>
   candidates example_next ! 1 = \<lparr>c_ideology = 60, alpha = 1 / 2\<rparr> \<and>
   candidates example_next ! 0 = \<lparr>c_ideology = 59, alpha = 11 / 20\<rparr> \<and>
   mutate scenario_config \<lparr>c_ideology = 60, alpha = 1 / 2\<rparr> True (example_draws 0)
     = Inr (candidates example_next ! 0)"
proof -
  note T = rule_A_winner_persists[OF example_generation example_sim_sizes(2)]
  have c: "candidates example_sim ! 1 = \<lparr>c_ideology = 60, alpha = 1 / 2\<rparr>"
    by (simp add: example_sim_def)
  have n: "candidates example_next ! 0 = \<lparr>c_ideology = 59, alpha = 11 / 20\<rparr>"
    by (simp add: example_next_def)
  have "(0::nat) < length (candidates example_sim) \<and> (0::nat) \<noteq> 1"
    by (simp add: example_sim_def)
  with T have "mutate scenario_config (candidates example_sim ! 1) True (example_draws 0)
        = Inr (candidates example_next ! 0)" by blast
  moreover from T have "candidates example_next ! 1 = candidates example_sim ! 1" by blast
  ultimately show ?thesis using c n example_generation example_sim_sizes(2) by simp
qed

section \<open>Claims about one generation of the prototype, and the tally\<close>

text \<open>
  Claim C8. In the prototype a candidate's coalition-probability estimate is the size of
  its winning coalition (formed from the supporters of the previous generation) divided
  by \<open>N_VOTERS\<close>; for a candidate whose coalition is empty it is exactly
  \<open>1 / N_VOTERS\<close>. With \<open>N_VOTERS \<noteq> 0\<close> neither case fails. This estimate is the
  one every voter uses for inclusion and utility.
\<close>

theorem observed_support_estimate:
  "(N_VOTERS cfg \<noteq> 0 \<and> winning_coalition c \<noteq> {||} \<longrightarrow>
      coalition_prob cfg c
        = Inr (real (fcard (winning_coalition c)) / real_of_int (N_VOTERS cfg))) \<and>
   (N_VOTERS cfg \<noteq> 0 \<and> winning_coalition c = {||} \<longrightarrow>
      coalition_prob cfg c = Inr (1 / real_of_int (N_VOTERS cfg))) \<and>
   (proto_eval_candidates cfg v cs = Inr us \<longrightarrow>
      (\<forall>k < length cs. \<exists>p.
         coalition_prob cfg (cs ! k) = Inr p \<and>
         proto_utility cfg v (cs ! k) p (proto_inclusion cfg v (cs ! k) p) = Inr (us ! k)))"
  using coalition_prob_Inr[of cfg c] proto_eval_candidates_Inr[of cfg v cs us] by simp

theorem observed_support_estimate_witness:
  "N_VOTERS scenario_config \<noteq> 0 \<and>
   winning_coalition example_proto_winner \<noteq> {||} \<and>
   coalition_prob scenario_config example_proto_winner = Inr (2 / 4) \<and>
   winning_coalition (Candidate 40 (1 / 2)) = {||} \<and>
   coalition_prob scenario_config (Candidate 40 (1 / 2)) = Inr (1 / 4)"
proof -
  have n: "N_VOTERS scenario_config = 4"
    by (simp add: scenario_config_def default_config_def)
  have w: "winning_coalition example_proto_winner \<noteq> {||}"
    "fcard (winning_coalition example_proto_winner) = 2"
    by (simp_all add: example_proto_winner_def fcard_finsert_if)
  have e: "winning_coalition (Candidate 40 (1 / 2)) = {||}" by (simp add: Candidate_def)
  from observed_support_estimate[of scenario_config example_proto_winner] n w
  have 1: "coalition_prob scenario_config example_proto_winner = Inr (2 / 4)" by simp
  from observed_support_estimate[of scenario_config "Candidate 40 (1 / 2)"] n e
  have 2: "coalition_prob scenario_config (Candidate 40 (1 / 2)) = Inr (1 / 4)" by simp
  show ?thesis using n w(1) e 1 2 by simp
qed

text \<open>
  Claim C3, as amended. After \<open>run_generation\<close> of the prototype the winner's record
  (policy and alpha of the candidate that won, with the supporters and the coalition of
  this generation) is carried unchanged into the next population, where it stands in
  slot 0 whatever index it won at; every slot from 1 to \<open>N_CANDIDATES - 1\<close> holds a
  freshly mutated copy of the winner. The counterexample shows a winner at index 1 whose
  slot 1 holds a mutated copy in the next population.
\<close>

theorem rule_B_winner_moves_to_front:
  assumes "run_generation cfg shuffle zs mp st = Inr (winner, sizes, st')"
  shows "length (p_candidates st') = max 1 (nat (N_CANDIDATES cfg)) \<and>
         p_candidates st' ! 0 = winner \<and>
         (\<exists>winner_idx. argmax sizes = Inr winner_idx \<and>
            winner_idx < length (p_candidates st) \<and>
            policy winner = policy (p_candidates st ! winner_idx) \<and>
            p_alpha winner = p_alpha (p_candidates st ! winner_idx)) \<and>
         (\<forall>k. 1 \<le> k \<and> k < nat (N_CANDIDATES cfg) \<longrightarrow>
            proto_mutate cfg winner mp (zs k) = Inr (p_candidates st' ! k))"
proof -
  from assms obtain ballots winner_idx where
    am: "argmax sizes = Inr winner_idx" and
    wi: "winner_idx < length (p_candidates st)" and
    w: "winner = form_coalitions cfg shuffle ballots 0 (p_candidates st) ! winner_idx"
    by (rule run_generation_Inr)
  have "policy winner = policy (p_candidates st ! winner_idx)"
    "p_alpha winner = p_alpha (p_candidates st ! winner_idx)"
    unfolding w form_coalitions_nth[OF wi] by simp_all
  with am wi have "\<exists>winner_idx. argmax sizes = Inr winner_idx \<and>
            winner_idx < length (p_candidates st) \<and>
            policy winner = policy (p_candidates st ! winner_idx) \<and>
            p_alpha winner = p_alpha (p_candidates st ! winner_idx)" by blast
  then show ?thesis using run_generation_next[OF assms] by blast
qed

theorem rule_B_winner_moves_to_front_witness:
  "run_generation scenario_config example_shuffle example_draws True example_proto_sim
     = Inr (example_proto_winner, [1, 2], example_proto_next) \<and>
   length (p_candidates example_proto_next) = 2 \<and>
   p_candidates example_proto_next ! 0 = example_proto_winner \<and>
   proto_mutate scenario_config example_proto_winner True (example_draws 1)
     = Inr (p_candidates example_proto_next ! 1)"
proof -
  note T = rule_B_winner_moves_to_front[OF example_proto_generation]
  have n: "nat (N_CANDIDATES scenario_config) = 2"
    by (simp add: scenario_config_def default_config_def)
  have "(1::nat) \<le> 1 \<and> 1 < nat (N_CANDIDATES scenario_config)" using n by simp
  with T have "proto_mutate scenario_config example_proto_winner True (example_draws 1)
     = Inr (p_candidates example_proto_next ! 1)" by blast
  with T n example_proto_generation show ?thesis by simp
qed

theorem rule_B_winner_slot_counterexample:
  "run_generation scenario_config example_shuffle example_draws True example_proto_sim
     = Inr (example_proto_winner, [1, 2], example_proto_next) \<and>
   argmax [1 :: nat, 2] = Inr 1 \<and>
   p_candidates example_proto_next ! 1 \<noteq> example_proto_winner \<and>
   p_candidates example_proto_next ! 0 = example_proto_winner"
proof -
  have "argmax [1 :: nat, 2] = Inr 1" by (simp add: argmax_def)
  moreover have "p_candidates example_proto_next ! 1 \<noteq> example_proto_winner"
    by (simp add: example_proto_next_def example_proto_winner_def)
  moreover have "p_candidates example_proto_next ! 0 = example_proto_winner"
    by (simp add: example_proto_next_def)
  ultimately show ?thesis using example_proto_generation by simp
qed

text \<open>
  Claim C10, as amended. Every candidate produced by the prototype's \<open>mutate\<close> has
  empty \<open>supporters\<close> and \<open>winning_coalition\<close>. So after a replacement (with
  \<open>N_VOTERS \<noteq> 0\<close>) slot 0 holds the winner and every other slot has empty sets and the
  estimate \<open>1 / N_VOTERS\<close>. When \<open>N_VOTERS \<ge> 2\<close>, there is a voter and the shuffle
  keeps the elements of the list it shuffles (as \<^verbatim>\<open>np.random.shuffle\<close> does), the
  quota \<^verbatim>\<open>int(0.5 * N_VOTERS)\<close> is at least 1, the winner's coalition is not empty,
  its size is the entry of the returned coalition sizes at the arg-max, and the estimate
  of slot 0 is that size divided by \<open>N_VOTERS\<close>. When \<open>N_VOTERS = 1\<close> the quota is 0,
  every coalition is empty, and slot 0 has the fallback estimate \<open>1 / N_VOTERS = 1\<close> like
  the other slots. The counterexample is a run with one voter: the winner has the one
  supporter, an empty coalition, and the estimate 1, where its coalition size divided by
  \<open>N_VOTERS\<close> is 0.
\<close>

theorem only_winner_keeps_a_coalition:
  "(\<forall>c g c'. proto_mutate cfg c mp g = Inr c' \<longrightarrow>
      supporters c' = {||} \<and> winning_coalition c' = {||}) \<and>
   (run_generation cfg shuffle zs mp st = Inr (winner, sizes, st') \<and> N_VOTERS cfg \<noteq> 0 \<longrightarrow>
      p_candidates st' ! 0 = winner \<and>
      (\<forall>k. 1 \<le> k \<and> k < length (p_candidates st') \<longrightarrow>
         supporters (p_candidates st' ! k) = {||} \<and>
         winning_coalition (p_candidates st' ! k) = {||} \<and>
         coalition_prob cfg (p_candidates st' ! k) = Inr (1 / real_of_int (N_VOTERS cfg)))) \<and>
   (run_generation cfg shuffle zs mp st = Inr (winner, sizes, st') \<and> 2 \<le> N_VOTERS cfg \<and>
    p_voters st \<noteq> [] \<and> (\<forall>idx xs. set (shuffle idx xs) = set xs) \<longrightarrow>
      winning_coalition (p_candidates st' ! 0) \<noteq> {||} \<and>
      1 \<le> fcard (winning_coalition winner) \<and>
      (\<exists>winner_idx. argmax sizes = Inr winner_idx \<and>
         sizes ! winner_idx = fcard (winning_coalition winner)) \<and>
      coalition_prob cfg (p_candidates st' ! 0)
        = Inr (real (fcard (winning_coalition winner)) / real_of_int (N_VOTERS cfg))) \<and>
   (run_generation cfg shuffle zs mp st = Inr (winner, sizes, st') \<and> N_VOTERS cfg = 1 \<longrightarrow>
      sizes = replicate (length (p_candidates st)) 0 \<and>
      winning_coalition (p_candidates st' ! 0) = {||} \<and>
      coalition_prob cfg (p_candidates st' ! 0) = Inr 1)"
proof -
  have fresh: "\<forall>c g c'. proto_mutate cfg c mp g = Inr c' \<longrightarrow>
            supporters c' = {||} \<and> winning_coalition c' = {||}"
    using proto_mutate_empty by blast
  have rest: "run_generation cfg shuffle zs mp st = Inr (winner, sizes, st') \<and>
      N_VOTERS cfg \<noteq> 0 \<longrightarrow>
      p_candidates st' ! 0 = winner \<and>
      (\<forall>k. 1 \<le> k \<and> k < length (p_candidates st') \<longrightarrow>
         supporters (p_candidates st' ! k) = {||} \<and>
         winning_coalition (p_candidates st' ! k) = {||} \<and>
         coalition_prob cfg (p_candidates st' ! k) = Inr (1 / real_of_int (N_VOTERS cfg)))"
  proof (intro impI)
    assume a: "run_generation cfg shuffle zs mp st = Inr (winner, sizes, st') \<and>
      N_VOTERS cfg \<noteq> 0"
    then have run: "run_generation cfg shuffle zs mp st = Inr (winner, sizes, st')"
      and nz: "N_VOTERS cfg \<noteq> 0" by simp_all
    note N = run_generation_next[OF run]
    have "\<forall>k. 1 \<le> k \<and> k < length (p_candidates st') \<longrightarrow>
         supporters (p_candidates st' ! k) = {||} \<and>
         winning_coalition (p_candidates st' ! k) = {||} \<and>
         coalition_prob cfg (p_candidates st' ! k) = Inr (1 / real_of_int (N_VOTERS cfg))"
    proof (intro allI impI)
      fix k assume k: "1 \<le> k \<and> k < length (p_candidates st')"
      then have "1 \<le> k \<and> k < nat (N_CANDIDATES cfg)" using N(1) by auto
      with N(3) have "proto_mutate cfg winner mp (zs k) = Inr (p_candidates st' ! k)" by blast
      then have e: "supporters (p_candidates st' ! k) = {||}"
        "winning_coalition (p_candidates st' ! k) = {||}"
        using proto_mutate_empty by blast+
      have "coalition_prob cfg (p_candidates st' ! k) = Inr (1 / real_of_int (N_VOTERS cfg))"
        using coalition_prob_Inr[OF nz, of "p_candidates st' ! k"] e(2) by simp
      with e show "supporters (p_candidates st' ! k) = {||} \<and>
            winning_coalition (p_candidates st' ! k) = {||} \<and>
            coalition_prob cfg (p_candidates st' ! k) = Inr (1 / real_of_int (N_VOTERS cfg))"
        by simp
    qed
    with N(2) show "p_candidates st' ! 0 = winner \<and>
      (\<forall>k. 1 \<le> k \<and> k < length (p_candidates st') \<longrightarrow>
         supporters (p_candidates st' ! k) = {||} \<and>
         winning_coalition (p_candidates st' ! k) = {||} \<and>
         coalition_prob cfg (p_candidates st' ! k) = Inr (1 / real_of_int (N_VOTERS cfg)))"
      by blast
  qed
  have keeps: "run_generation cfg shuffle zs mp st = Inr (winner, sizes, st') \<and>
      2 \<le> N_VOTERS cfg \<and> p_voters st \<noteq> [] \<and> (\<forall>idx xs. set (shuffle idx xs) = set xs) \<longrightarrow>
      winning_coalition (p_candidates st' ! 0) \<noteq> {||} \<and>
      1 \<le> fcard (winning_coalition winner) \<and>
      (\<exists>winner_idx. argmax sizes = Inr winner_idx \<and>
         sizes ! winner_idx = fcard (winning_coalition winner)) \<and>
      coalition_prob cfg (p_candidates st' ! 0)
        = Inr (real (fcard (winning_coalition winner)) / real_of_int (N_VOTERS cfg))"
  proof (intro impI)
    assume a: "run_generation cfg shuffle zs mp st = Inr (winner, sizes, st') \<and>
      2 \<le> N_VOTERS cfg \<and> p_voters st \<noteq> [] \<and> (\<forall>idx xs. set (shuffle idx xs) = set xs)"
    then have run: "run_generation cfg shuffle zs mp st = Inr (winner, sizes, st')"
      and n: "2 \<le> N_VOTERS cfg" and v: "p_voters st \<noteq> []"
      and sh: "\<forall>idx xs. set (shuffle idx xs) = set xs" by simp_all
    have nz: "N_VOTERS cfg \<noteq> 0" using n by simp
    note N = run_generation_next[OF run]
    have ne: "winning_coalition winner \<noteq> {||}"
      by (rule winner_coalition_nonempty[OF run n v sh])
    then have one: "1 \<le> fcard (winning_coalition winner)" by (rule fcard_positive)
    from run obtain ballots winner_idx where
      sz: "sizes = map (\<lambda>c. fcard (winning_coalition c))
                     (form_coalitions cfg shuffle ballots 0 (p_candidates st))" and
      am: "argmax sizes = Inr winner_idx" and
      wi: "winner_idx < length (p_candidates st)" and
      w: "winner = form_coalitions cfg shuffle ballots 0 (p_candidates st) ! winner_idx"
      by (rule run_generation_Inr)
    have "sizes ! winner_idx = fcard (winning_coalition winner)"
      unfolding sz w using wi by (simp add: form_coalitions_length)
    with am have ex: "\<exists>winner_idx. argmax sizes = Inr winner_idx \<and>
         sizes ! winner_idx = fcard (winning_coalition winner)" by blast
    have cp: "coalition_prob cfg (p_candidates st' ! 0)
        = Inr (real (fcard (winning_coalition winner)) / real_of_int (N_VOTERS cfg))"
      unfolding N(2) using coalition_prob_Inr[OF nz, of winner] ne by simp
    have ne0: "winning_coalition (p_candidates st' ! 0) \<noteq> {||}" unfolding N(2) by (rule ne)
    show "winning_coalition (p_candidates st' ! 0) \<noteq> {||} \<and>
      1 \<le> fcard (winning_coalition winner) \<and>
      (\<exists>winner_idx. argmax sizes = Inr winner_idx \<and>
         sizes ! winner_idx = fcard (winning_coalition winner)) \<and>
      coalition_prob cfg (p_candidates st' ! 0)
        = Inr (real (fcard (winning_coalition winner)) / real_of_int (N_VOTERS cfg))"
      by (rule conjI[OF ne0 conjI[OF one conjI[OF ex cp]]])
  qed
  have loses: "run_generation cfg shuffle zs mp st = Inr (winner, sizes, st') \<and>
      N_VOTERS cfg = 1 \<longrightarrow>
      sizes = replicate (length (p_candidates st)) 0 \<and>
      winning_coalition (p_candidates st' ! 0) = {||} \<and>
      coalition_prob cfg (p_candidates st' ! 0) = Inr 1"
  proof (intro impI)
    assume a: "run_generation cfg shuffle zs mp st = Inr (winner, sizes, st') \<and>
      N_VOTERS cfg = 1"
    then have run: "run_generation cfg shuffle zs mp st = Inr (winner, sizes, st')"
      and n: "N_VOTERS cfg = 1" by simp_all
    have nz: "N_VOTERS cfg \<noteq> 0" using n by simp
    note N = run_generation_next[OF run]
    have e: "winning_coalition winner = {||}" by (rule winner_coalition_empty[OF run n])
    have cp: "coalition_prob cfg (p_candidates st' ! 0) = Inr 1"
      unfolding N(2) using coalition_prob_Inr[OF nz, of winner] e n by simp
    from run obtain ballots where
      sz: "sizes = map (\<lambda>c. fcard (winning_coalition c))
                     (form_coalitions cfg shuffle ballots 0 (p_candidates st))"
      by (rule run_generation_Inr)
    have "sizes = replicate (length (p_candidates st)) 0"
    proof (rule nth_equalityI)
      show "length sizes = length (replicate (length (p_candidates st)) (0::nat))"
        unfolding sz by (simp add: form_coalitions_length)
    next
      fix k assume "k < length sizes"
      then have k: "k < length (p_candidates st)"
        unfolding sz by (simp add: form_coalitions_length)
      have "winning_coalition
              (form_coalitions cfg shuffle ballots 0 (p_candidates st) ! k) = {||}"
        unfolding form_coalitions_nth[OF k] n quota_one_voter by (simp add: slice_to_def)
      then show "sizes ! k = replicate (length (p_candidates st)) 0 ! k"
        unfolding sz using k by (simp add: form_coalitions_length)
    qed
    moreover have "winning_coalition (p_candidates st' ! 0) = {||}" unfolding N(2) by (rule e)
    ultimately show "sizes = replicate (length (p_candidates st)) 0 \<and>
      winning_coalition (p_candidates st' ! 0) = {||} \<and>
      coalition_prob cfg (p_candidates st' ! 0) = Inr 1"
      using cp by blast
  qed
  show ?thesis by (rule conjI[OF fresh conjI[OF rest conjI[OF keeps loses]]])
qed

theorem only_winner_keeps_a_coalition_witness:
  "run_generation scenario_config example_shuffle example_draws True example_proto_sim
     = Inr (example_proto_winner, [1, 2], example_proto_next) \<and>
   2 \<le> N_VOTERS scenario_config \<and> p_voters example_proto_sim \<noteq> [] \<and>
   winning_coalition (p_candidates example_proto_next ! 0) \<noteq> {||} \<and>
   coalition_prob scenario_config (p_candidates example_proto_next ! 0) = Inr (2 / 4) \<and>
   winning_coalition (p_candidates example_proto_next ! 1) = {||} \<and>
   coalition_prob scenario_config (p_candidates example_proto_next ! 1) = Inr (1 / 4) \<and>
   run_generation one_voter_config example_shuffle example_draws True one_voter_sim
     = Inr (one_voter_winner, [0, 0], one_voter_next) \<and>
   N_VOTERS one_voter_config = 1 \<and>
   winning_coalition (p_candidates one_voter_next ! 0) = {||} \<and>
   coalition_prob one_voter_config (p_candidates one_voter_next ! 0) = Inr 1"
proof -
  note T = only_winner_keeps_a_coalition
             [of scenario_config True example_shuffle example_draws example_proto_sim
                 example_proto_winner "[1, 2]" example_proto_next]
  note U = only_winner_keeps_a_coalition
             [of one_voter_config True example_shuffle example_draws one_voter_sim
                 one_voter_winner "[0, 0]" one_voter_next]
  note g = example_proto_generation
  note p = scenario_population
  have n: "N_VOTERS scenario_config = 4"
    by (simp add: scenario_config_def default_config_def)
  have w: "fcard (winning_coalition example_proto_winner) = 2"
    by (simp add: example_proto_winner_def fcard_finsert_if)
  note R = T[THEN conjunct2, THEN conjunct1, THEN mp, OF conjI[OF g scenario_voters_nonzero]]
  have "(1::nat) \<le> 1 \<and> 1 < length (p_candidates example_proto_next)"
    by (simp add: example_proto_next_def)
  with R have r: "winning_coalition (p_candidates example_proto_next ! 1) = {||} \<and>
     coalition_prob scenario_config (p_candidates example_proto_next ! 1)
       = Inr (1 / real_of_int (N_VOTERS scenario_config))" by blast
  have r1: "winning_coalition (p_candidates example_proto_next ! 1) = {||}"
    using r by (rule conjunct1)
  have r2: "coalition_prob scenario_config (p_candidates example_proto_next ! 1) = Inr (1 / 4)"
    using r n by simp
  note K = T[THEN conjunct2, THEN conjunct2, THEN conjunct1, THEN mp,
             OF conjI[OF g conjI[OF p(1) conjI[OF p(2) example_shuffle_permutes]]]]
  have k1: "winning_coalition (p_candidates example_proto_next ! 0) \<noteq> {||}"
    using K by (rule conjunct1)
  have "coalition_prob scenario_config (p_candidates example_proto_next ! 0)
        = Inr (real (fcard (winning_coalition example_proto_winner))
               / real_of_int (N_VOTERS scenario_config))"
    using K by (elim conjE)
  then have k2: "coalition_prob scenario_config (p_candidates example_proto_next ! 0)
        = Inr (2 / 4)"
    unfolding w n by simp
  note h = one_voter_generation
  note L = U[THEN conjunct2, THEN conjunct2, THEN conjunct2, THEN mp,
             OF conjI[OF h one_voter_values(1)]]
  have l1: "winning_coalition (p_candidates one_voter_next ! 0) = {||}"
    using L by (elim conjE)
  have l2: "coalition_prob one_voter_config (p_candidates one_voter_next ! 0) = Inr 1"
    using L by (elim conjE)
  show ?thesis
    by (rule conjI[OF g conjI[OF p(1) conjI[OF p(2) conjI[OF k1 conjI[OF k2 conjI[OF r1
          conjI[OF r2 conjI[OF h conjI[OF one_voter_values(1) conjI[OF l1 l2]]]]]]]]]])
qed

theorem winner_without_coalition_counterexample:
  "run_generation one_voter_config example_shuffle example_draws True one_voter_sim
     = Inr (one_voter_winner, [0, 0], one_voter_next) \<and>
   N_VOTERS one_voter_config = 1 \<and>
   length (p_voters one_voter_sim) = nat (N_VOTERS one_voter_config) \<and>
   py_int ((5 / 10) * real_of_int (N_VOTERS one_voter_config)) = 0 \<and>
   p_candidates one_voter_next ! 0 = one_voter_winner \<and>
   fcard (supporters one_voter_winner) = 1 \<and>
   winning_coalition (p_candidates one_voter_next ! 0) = {||} \<and>
   real (fcard (winning_coalition one_voter_winner))
     / real_of_int (N_VOTERS one_voter_config) = 0 \<and>
   coalition_prob one_voter_config (p_candidates one_voter_next ! 0) = Inr 1 \<and>
   coalition_prob one_voter_config (p_candidates one_voter_next ! 1) = Inr 1"
  by (rule conjI[OF one_voter_generation conjI[OF one_voter_values(1)
        conjI[OF one_voter_values(2) conjI[OF one_voter_values(3) conjI[OF one_voter_values(4)
        conjI[OF one_voter_values(5) conjI[OF one_voter_estimates(1)
        conjI[OF one_voter_values(6) conjI[OF one_voter_estimates(2)
        one_voter_estimates(3)]]]]]]]]])

text \<open>
  Claim C7. In a generation every voter casts exactly one ballot, for the first index
  of maximal utility. In the detailed simulator the vote counts are the numbers of
  ballots per candidate: a list of \<open>N_CANDIDATES\<close> entries summing to \<open>N_VOTERS\<close>.
  In the prototype the sizes of the supporter sets formed from the ballots are again
  \<open>N_CANDIDATES\<close> numbers summing to \<open>N_VOTERS\<close>.
\<close>

theorem one_ballot_per_voter:
  "(run_generation_detailed cfg zs st = Inr (vote_info, counts, winner_idx, st') \<and>
    length (voters st) = nat (N_VOTERS cfg) \<and>
    length (candidates st) = nat (N_CANDIDATES cfg) \<longrightarrow>
      length vote_info = nat (N_VOTERS cfg) \<and>
      (\<forall>info\<in>set vote_info.
         vi_ballot info < nat (N_CANDIDATES cfg) \<and>
         length (vi_utilities info) = nat (N_CANDIDATES cfg) \<and>
         (\<forall>j < nat (N_CANDIDATES cfg).
            vi_utilities info ! j \<le> vi_utilities info ! vi_ballot info) \<and>
         (\<forall>j < vi_ballot info. vi_utilities info ! j < vi_utilities info ! vi_ballot info)) \<and>
      counts = map (count_list (map vi_ballot vote_info)) [0 ..< nat (N_CANDIDATES cfg)] \<and>
      length counts = nat (N_CANDIDATES cfg) \<and>
      sum_list counts = nat (N_VOTERS cfg)) \<and>
   (run_generation cfg shuffle pzs mp pst = Inr (winner, sizes, pst') \<and>
    length (p_voters pst) = nat (N_VOTERS cfg) \<and>
    length (p_candidates pst) = nat (N_CANDIDATES cfg) \<longrightarrow>
      (\<exists>ballots.
         proto_vote_loop cfg (p_candidates pst) (p_voters pst) = Inr ballots \<and>
         length ballots = nat (N_VOTERS cfg) \<and>
         (\<forall>k < nat (N_VOTERS cfg). \<exists>us.
            proto_eval_candidates cfg (p_voters pst ! k) (p_candidates pst) = Inr us \<and>
            argmax us = Inr (ballots ! k)) \<and>
         winner \<in> set (form_coalitions cfg shuffle ballots 0 (p_candidates pst)) \<and>
         map (\<lambda>c. fcard (supporters c)) (form_coalitions cfg shuffle ballots 0 (p_candidates pst))
           = map (count_list ballots) [0 ..< nat (N_CANDIDATES cfg)] \<and>
         length (map (\<lambda>c. fcard (supporters c))
                   (form_coalitions cfg shuffle ballots 0 (p_candidates pst)))
           = nat (N_CANDIDATES cfg) \<and>
         sum_list (map (\<lambda>c. fcard (supporters c))
                     (form_coalitions cfg shuffle ballots 0 (p_candidates pst)))
           = nat (N_VOTERS cfg)))"
proof (rule conjI; rule impI)
  assume a: "run_generation_detailed cfg zs st = Inr (vote_info, counts, winner_idx, st') \<and>
    length (voters st) = nat (N_VOTERS cfg) \<and>
    length (candidates st) = nat (N_CANDIDATES cfg)"
  then have run: "run_generation_detailed cfg zs st = Inr (vote_info, counts, winner_idx, st')"
    and nv: "length (voters st) = nat (N_VOTERS cfg)"
    and nc: "length (candidates st) = nat (N_CANDIDATES cfg)" by simp_all
  note C = run_generation_detailed_counts[OF run nc]
  from run obtain vs' ballots where
    vl: "vote_loop cfg (candidates st) 0 (voters st) = Inr (vs', ballots, vote_info)"
    by (rule run_generation_detailed_Inr)
  have each: "\<forall>info\<in>set vote_info.
         vi_ballot info < nat (N_CANDIDATES cfg) \<and>
         length (vi_utilities info) = nat (N_CANDIDATES cfg) \<and>
         (\<forall>j < nat (N_CANDIDATES cfg).
            vi_utilities info ! j \<le> vi_utilities info ! vi_ballot info) \<and>
         (\<forall>j < vi_ballot info. vi_utilities info ! j < vi_utilities info ! vi_ballot info)"
    using vote_info_ballots[OF vl] unfolding nc by blast
  have lc: "length counts = nat (N_CANDIDATES cfg)" unfolding C(1) by simp
  show "length vote_info = nat (N_VOTERS cfg) \<and>
      (\<forall>info\<in>set vote_info.
         vi_ballot info < nat (N_CANDIDATES cfg) \<and>
         length (vi_utilities info) = nat (N_CANDIDATES cfg) \<and>
         (\<forall>j < nat (N_CANDIDATES cfg).
            vi_utilities info ! j \<le> vi_utilities info ! vi_ballot info) \<and>
         (\<forall>j < vi_ballot info. vi_utilities info ! j < vi_utilities info ! vi_ballot info)) \<and>
      counts = map (count_list (map vi_ballot vote_info)) [0 ..< nat (N_CANDIDATES cfg)] \<and>
      length counts = nat (N_CANDIDATES cfg) \<and>
      sum_list counts = nat (N_VOTERS cfg)"
    using C(1,2,3) each lc unfolding nv by blast
next
  assume a: "run_generation cfg shuffle pzs mp pst = Inr (winner, sizes, pst') \<and>
    length (p_voters pst) = nat (N_VOTERS cfg) \<and>
    length (p_candidates pst) = nat (N_CANDIDATES cfg)"
  then have run: "run_generation cfg shuffle pzs mp pst = Inr (winner, sizes, pst')"
    and nv: "length (p_voters pst) = nat (N_VOTERS cfg)"
    and nc: "length (p_candidates pst) = nat (N_CANDIDATES cfg)" by simp_all
  from run obtain ballots winner_idx where
    vl: "proto_vote_loop cfg (p_candidates pst) (p_voters pst) = Inr ballots" and
    wi: "winner_idx < length (p_candidates pst)" and
    w: "winner = form_coalitions cfg shuffle ballots 0 (p_candidates pst) ! winner_idx"
    by (rule run_generation_Inr)
  let ?cands = "form_coalitions cfg shuffle ballots 0 (p_candidates pst)"
  note V = proto_vote_loop_Inr[OF vl]
  have lb: "length ballots = nat (N_VOTERS cfg)" using V nv by simp
  have argm: "\<forall>k < nat (N_VOTERS cfg). \<exists>us.
            proto_eval_candidates cfg (p_voters pst ! k) (p_candidates pst) = Inr us \<and>
            argmax us = Inr (ballots ! k)"
    using V unfolding nv by blast
  have win: "winner \<in> set ?cands"
    unfolding w using wi by (simp add: form_coalitions_length)
  have tally: "map (\<lambda>c. fcard (supporters c)) ?cands
                 = map (count_list ballots) [0 ..< nat (N_CANDIDATES cfg)]"
    using form_coalitions_supporters[of cfg shuffle ballots 0 "p_candidates pst"] nc by simp
  have rng: "\<forall>x\<in>set ballots. x < nat (N_CANDIDATES cfg)" using V nc by simp
  have sm: "sum_list (map (\<lambda>c. fcard (supporters c)) ?cands) = nat (N_VOTERS cfg)"
    unfolding tally using sum_list_count_list[OF rng] lb by simp
  have ln: "length (map (\<lambda>c. fcard (supporters c)) ?cands) = nat (N_CANDIDATES cfg)"
    unfolding tally by simp
  show "\<exists>ballots.
         proto_vote_loop cfg (p_candidates pst) (p_voters pst) = Inr ballots \<and>
         length ballots = nat (N_VOTERS cfg) \<and>
         (\<forall>k < nat (N_VOTERS cfg). \<exists>us.
            proto_eval_candidates cfg (p_voters pst ! k) (p_candidates pst) = Inr us \<and>
            argmax us = Inr (ballots ! k)) \<and>
         winner \<in> set (form_coalitions cfg shuffle ballots 0 (p_candidates pst)) \<and>
         map (\<lambda>c. fcard (supporters c)) (form_coalitions cfg shuffle ballots 0 (p_candidates pst))
           = map (count_list ballots) [0 ..< nat (N_CANDIDATES cfg)] \<and>
         length (map (\<lambda>c. fcard (supporters c))
                   (form_coalitions cfg shuffle ballots 0 (p_candidates pst)))
           = nat (N_CANDIDATES cfg) \<and>
         sum_list (map (\<lambda>c. fcard (supporters c))
                     (form_coalitions cfg shuffle ballots 0 (p_candidates pst)))
           = nat (N_VOTERS cfg)"
    using vl lb argm win tally ln sm by blast
qed

theorem one_ballot_per_voter_witness:
  "run_generation_detailed scenario_config example_draws example_sim
     = Inr (example_vote_info, [0, 4], 1, example_next) \<and>
   length (voters example_sim) = nat (N_VOTERS scenario_config) \<and>
   length (candidates example_sim) = nat (N_CANDIDATES scenario_config) \<and>
   nat (N_VOTERS scenario_config) = 4 \<and> nat (N_CANDIDATES scenario_config) = 2 \<and>
   length example_vote_info = 4 \<and> length [0 :: nat, 4] = 2 \<and> sum_list [0 :: nat, 4] = 4 \<and>
   run_generation scenario_config example_shuffle example_draws True example_proto_sim
     = Inr (example_proto_winner, [1, 2], example_proto_next) \<and>
   length (p_voters example_proto_sim) = nat (N_VOTERS scenario_config) \<and>
   length (p_candidates example_proto_sim) = nat (N_CANDIDATES scenario_config) \<and>
   proto_vote_loop scenario_config (p_candidates example_proto_sim) (p_voters example_proto_sim)
     = Inr [1, 1, 1, 0] \<and>
   map (\<lambda>c. fcard (supporters c))
     (form_coalitions scenario_config example_shuffle [1, 1, 1, 0] 0
        (p_candidates example_proto_sim)) = [1, 3] \<and>
   sum_list (map (\<lambda>c. fcard (supporters c))
     (form_coalitions scenario_config example_shuffle [1, 1, 1, 0] 0
        (p_candidates example_proto_sim))) = 4"
proof -
  note T = one_ballot_per_voter
             [of scenario_config example_draws example_sim example_vote_info "[0, 4]" 1
                 example_next example_shuffle example_draws True example_proto_sim
                 example_proto_winner "[1, 2]" example_proto_next]
  have n: "nat (N_VOTERS scenario_config) = 4" "nat (N_CANDIDATES scenario_config) = 2"
    by (simp_all add: scenario_config_def default_config_def)
  from T example_generation example_sim_sizes
  have d: "length example_vote_info = nat (N_VOTERS scenario_config)"
    "length [0 :: nat, 4] = nat (N_CANDIDATES scenario_config)"
    "sum_list [0 :: nat, 4] = nat (N_VOTERS scenario_config)"
    by blast+
  from T example_proto_generation example_proto_sizes
  obtain ballots where
    b: "proto_vote_loop scenario_config (p_candidates example_proto_sim)
          (p_voters example_proto_sim) = Inr ballots"
       "map (\<lambda>c. fcard (supporters c))
          (form_coalitions scenario_config example_shuffle ballots 0
             (p_candidates example_proto_sim))
        = map (count_list ballots) [0 ..< nat (N_CANDIDATES scenario_config)]"
       "sum_list (map (\<lambda>c. fcard (supporters c))
          (form_coalitions scenario_config example_shuffle ballots 0
             (p_candidates example_proto_sim))) = nat (N_VOTERS scenario_config)"
    by blast
  have be: "ballots = [1, 1, 1, 0]" using b(1) example_proto_ballots by simp
  have "map (count_list [1, 1, 1, 0 :: nat]) [0 ..< 2] = [1, 3]"
    by (simp add: upt_rec)
  then have tally: "map (\<lambda>c. fcard (supporters c))
     (form_coalitions scenario_config example_shuffle [1, 1, 1, 0] 0
        (p_candidates example_proto_sim)) = [1, 3]"
    using b(2) unfolding be n by simp
  show ?thesis
    using example_generation example_sim_sizes n d example_proto_generation
      example_proto_sizes example_proto_ballots tally b(3)
    unfolding be by simp
qed

section \<open>Claims about the recorded rows\<close>

text \<open>
  Claim C9. The records that one pass of the loop of \<open>run_simulation_detailed\<close> emits
  for a generation are built after \<open>run_generation_detailed\<close> has replaced the losers.
  So the ideology and alpha recorded for a slot, in the candidate records and in the
  per-candidate columns of every vote record, are those of the next population: for a
  non-winner slot, of the fresh mutation of the winner. The inclusion flag and the
  utility recorded beside them were computed from the candidate that stood in the slot
  before the replacement. Only in the winner's slot do the two populations agree.
  By \<open>run_simulation_detailed_emits\<close> the rows of every generation of a whole run are
  the rows of such a pass.
\<close>

theorem records_report_replaced_population:
  assumes step: "simulation_step cfg zs gen st = Inr (vrecs, summ, crecs, st')"
    and nc: "length (candidates st) = nat (N_CANDIDATES cfg)"
  shows "length crecs = length (candidates st) \<and> length vrecs = length (voters st) \<and>
    sr_winner_idx summ < length (candidates st) \<and>
    (\<forall>cid < length (candidates st).
        cr_ideology (crecs ! cid) = c_ideology (candidates st' ! cid) \<and>
        cr_alpha (crecs ! cid) = alpha (candidates st' ! cid) \<and>
        cr_is_winner (crecs ! cid) = (cid = sr_winner_idx summ) \<and>
        (cid = sr_winner_idx summ \<longrightarrow> candidates st' ! cid = candidates st ! cid) \<and>
        (cid \<noteq> sr_winner_idx summ \<longrightarrow>
           mutate cfg (candidates st ! sr_winner_idx summ) True (zs cid)
             = Inr (candidates st' ! cid))) \<and>
    (\<forall>k < length (voters st). \<forall>cid < length (candidates st).
        fst (vr_cands (vrecs ! k) ! cid) = c_ideology (candidates st' ! cid) \<and>
        fst (snd (vr_cands (vrecs ! k) ! cid)) = alpha (candidates st' ! cid) \<and>
        fst (snd (snd (vr_cands (vrecs ! k) ! cid)))
          = (\<bar>ideology (voters st ! k) - c_ideology (candidates st ! cid)\<bar> \<le> THETA cfg \<and>
             (if risk_type (voters st ! k) = ''risk'' then TAU cfg else PHI cfg)
               \<le> real_of_int (WINNING_COALITION_SIZE cfg) / real_of_int (N_VOTERS cfg)) \<and>
        snd (snd (snd (vr_cands (vrecs ! k) ! cid)))
          = (ideology (voters st ! k) - c_ideology (candidates st ! cid))\<^sup>2
            + alpha (candidates st ! cid) * (RESOURCE_POOL cfg / real_of_int (N_VOTERS cfg))
            + (if fst (snd (snd (vr_cands (vrecs ! k) ! cid)))
               then (1 - alpha (candidates st ! cid))
                    * (RESOURCE_POOL cfg / real_of_int (WINNING_COALITION_SIZE cfg))
               else 0))"
proof -
  from step obtain vote_info counts winner where
    run: "run_generation_detailed cfg zs st = Inr (vote_info, counts, winner, st')" and
    vro: "vote_records_of gen counts winner st' vote_info = Inr vrecs" and
    summ: "summ = \<lparr>sr_generation = gen, sr_vote_counts = counts, sr_winner_idx = winner\<rparr>" and
    crecs: "crecs = candidate_records_of gen winner (candidates st')"
    by (rule simulation_step_Inr)
  have w: "sr_winner_idx summ = winner" using summ by simp
  from run obtain vs' ballots where
    vl: "vote_loop cfg (candidates st) 0 (voters st) = Inr (vs', ballots, vote_info)" and
    rl: "replace_losers cfg zs winner [0 ..< nat (N_CANDIDATES cfg)] (candidates st)
           = Inr (candidates st')"
    by (rule run_generation_detailed_Inr)
  have "distinct [0 ..< nat (N_CANDIDATES cfg)]" by simp
  note R = replace_losers_Inr[OF rl this]
  have len': "length (candidates st') = length (candidates st)" using R by simp
  have wlt: "winner < length (candidates st)"
    using run_generation_detailed_counts(4)[OF run nc] nc by simp
  have keep: "candidates st' ! winner = candidates st ! winner" using R by simp
  have repl: "\<forall>cid < length (candidates st). cid \<noteq> winner \<longrightarrow>
      mutate cfg (candidates st ! winner) True (zs cid) = Inr (candidates st' ! cid)"
    using R nc by simp
  have lv: "length vote_info = length (voters st)" using vote_loop_length[OF vl] by simp
  note V = vote_records_of_Inr[OF vro]
  have lr: "length vrecs = length (voters st)" using V lv by simp
  have lc: "length crecs = length (candidates st)"
    unfolding crecs candidate_records_of_def using len' by simp
  have cands: "\<forall>cid < length (candidates st).
        cr_ideology (crecs ! cid) = c_ideology (candidates st' ! cid) \<and>
        cr_alpha (crecs ! cid) = alpha (candidates st' ! cid) \<and>
        cr_is_winner (crecs ! cid) = (cid = sr_winner_idx summ) \<and>
        (cid = sr_winner_idx summ \<longrightarrow> candidates st' ! cid = candidates st ! cid) \<and>
        (cid \<noteq> sr_winner_idx summ \<longrightarrow>
           mutate cfg (candidates st ! sr_winner_idx summ) True (zs cid)
             = Inr (candidates st' ! cid))"
  proof (intro allI impI)
    fix cid assume cid: "cid < length (candidates st)"
    then have "cid < length (candidates st')" using len' by simp
    then have rec: "crecs ! cid
        = \<lparr>cr_generation = gen, cr_candidate_id = cid,
           cr_ideology = c_ideology (candidates st' ! cid),
           cr_alpha = alpha (candidates st' ! cid), cr_is_winner = (cid = winner)\<rparr>"
      unfolding crecs candidate_records_of_def by simp
    have "cid \<noteq> winner \<longrightarrow>
           mutate cfg (candidates st ! winner) True (zs cid) = Inr (candidates st' ! cid)"
      using repl cid by blast
    moreover have "cid = winner \<longrightarrow> candidates st' ! cid = candidates st ! cid"
      using keep by simp
    ultimately show "cr_ideology (crecs ! cid) = c_ideology (candidates st' ! cid) \<and>
        cr_alpha (crecs ! cid) = alpha (candidates st' ! cid) \<and>
        cr_is_winner (crecs ! cid) = (cid = sr_winner_idx summ) \<and>
        (cid = sr_winner_idx summ \<longrightarrow> candidates st' ! cid = candidates st ! cid) \<and>
        (cid \<noteq> sr_winner_idx summ \<longrightarrow>
           mutate cfg (candidates st ! sr_winner_idx summ) True (zs cid)
             = Inr (candidates st' ! cid))"
      unfolding w rec by simp
  qed
  have votes: "\<forall>k < length (voters st). \<forall>cid < length (candidates st).
        fst (vr_cands (vrecs ! k) ! cid) = c_ideology (candidates st' ! cid) \<and>
        fst (snd (vr_cands (vrecs ! k) ! cid)) = alpha (candidates st' ! cid) \<and>
        fst (snd (snd (vr_cands (vrecs ! k) ! cid)))
          = (\<bar>ideology (voters st ! k) - c_ideology (candidates st ! cid)\<bar> \<le> THETA cfg \<and>
             (if risk_type (voters st ! k) = ''risk'' then TAU cfg else PHI cfg)
               \<le> real_of_int (WINNING_COALITION_SIZE cfg) / real_of_int (N_VOTERS cfg)) \<and>
        snd (snd (snd (vr_cands (vrecs ! k) ! cid)))
          = (ideology (voters st ! k) - c_ideology (candidates st ! cid))\<^sup>2
            + alpha (candidates st ! cid) * (RESOURCE_POOL cfg / real_of_int (N_VOTERS cfg))
            + (if fst (snd (snd (vr_cands (vrecs ! k) ! cid)))
               then (1 - alpha (candidates st ! cid))
                    * (RESOURCE_POOL cfg / real_of_int (WINNING_COALITION_SIZE cfg))
               else 0)"
  proof (intro allI impI)
    fix k cid assume k: "k < length (voters st)" and cid: "cid < length (candidates st)"
    have "k < length vote_info" using k lv by simp
    with V have cc: "cand_columns (vote_info ! k) 0 (candidates st') = Inr (vr_cands (vrecs ! k))"
      by blast
    have cid': "cid < length (candidates st')" using cid len' by simp
    from cand_columns_Inr[OF cc] cid'
    have "vr_cands (vrecs ! k) ! cid
          = (c_ideology (candidates st' ! cid), alpha (candidates st' ! cid),
             vi_included (vote_info ! k) ! (0 + cid), vi_utilities (vote_info ! k) ! (0 + cid))"
      by blast
    then have col: "vr_cands (vrecs ! k) ! cid
          = (c_ideology (candidates st' ! cid), alpha (candidates st' ! cid),
             vi_included (vote_info ! k) ! cid, vi_utilities (vote_info ! k) ! cid)"
      by simp
    note I = vote_info_nth[OF vl k cid]
    show "fst (vr_cands (vrecs ! k) ! cid) = c_ideology (candidates st' ! cid) \<and>
        fst (snd (vr_cands (vrecs ! k) ! cid)) = alpha (candidates st' ! cid) \<and>
        fst (snd (snd (vr_cands (vrecs ! k) ! cid)))
          = (\<bar>ideology (voters st ! k) - c_ideology (candidates st ! cid)\<bar> \<le> THETA cfg \<and>
             (if risk_type (voters st ! k) = ''risk'' then TAU cfg else PHI cfg)
               \<le> real_of_int (WINNING_COALITION_SIZE cfg) / real_of_int (N_VOTERS cfg)) \<and>
        snd (snd (snd (vr_cands (vrecs ! k) ! cid)))
          = (ideology (voters st ! k) - c_ideology (candidates st ! cid))\<^sup>2
            + alpha (candidates st ! cid) * (RESOURCE_POOL cfg / real_of_int (N_VOTERS cfg))
            + (if fst (snd (snd (vr_cands (vrecs ! k) ! cid)))
               then (1 - alpha (candidates st ! cid))
                    * (RESOURCE_POOL cfg / real_of_int (WINNING_COALITION_SIZE cfg))
               else 0)"
      unfolding col fst_conv snd_conv using I by (intro conjI) (rule refl | assumption)+
  qed
  have wlt': "sr_winner_idx summ < length (candidates st)" using wlt w by simp
  show ?thesis by (rule conjI[OF lc conjI[OF lr conjI[OF wlt' conjI[OF cands votes]]]])
qed

theorem records_report_replaced_population_witness:
  "simulation_step scenario_config example_draws 0 example_sim
     = Inr (map (\<lambda>(vid, rt).
                   \<lparr>vr_generation = 0, vr_voter_id = vid, vr_risk_type = rt, vr_voted_for = 1,
                    vr_voter_ideology = 10, vr_vote_counts = [0, 4], vr_winner_idx = 1,
                    vr_cands = [(59, 11 / 20, True, 145), (60, 1 / 2, True, 2645)]\<rparr>)
              [(0, ''safe''), (1, ''safe''), (2, ''risk''), (3, ''risk'')],
            \<lparr>sr_generation = 0, sr_vote_counts = [0, 4], sr_winner_idx = 1\<rparr>,
            [\<lparr>cr_generation = 0, cr_candidate_id = 0, cr_ideology = 59, cr_alpha = 11 / 20,
              cr_is_winner = False\<rparr>,
             \<lparr>cr_generation = 0, cr_candidate_id = 1, cr_ideology = 60, cr_alpha = 1 / 2,
              cr_is_winner = True\<rparr>],
            example_next) \<and>
   length (candidates example_sim) = nat (N_CANDIDATES scenario_config) \<and>
   c_ideology (candidates example_sim ! 0) = 10 \<and>
   c_ideology (candidates example_next ! 0) = 59 \<and>
   (145 :: real) = (10 - 10)\<^sup>2 + (1 / 2) * (1000 / 4) + (1 - 1 / 2) * (1000 / 25) \<and>
   mutate scenario_config (candidates example_sim ! 1) True (example_draws 0)
     = Inr (candidates example_next ! 0)"
proof -
  note T = records_report_replaced_population[OF example_step example_sim_sizes(2)]
  have "(0::nat) < length (candidates example_sim)" by (simp add: example_sim_def)
  with T have "(0::nat) \<noteq> sr_winner_idx
        \<lparr>sr_generation = 0, sr_vote_counts = [0, 4], sr_winner_idx = 1\<rparr> \<longrightarrow>
      mutate scenario_config
        (candidates example_sim
           ! sr_winner_idx \<lparr>sr_generation = 0, sr_vote_counts = [0, 4], sr_winner_idx = 1\<rparr>)
        True (example_draws 0) = Inr (candidates example_next ! 0)"
    by blast
  then have m: "mutate scenario_config (candidates example_sim ! 1) True (example_draws 0)
     = Inr (candidates example_next ! 0)" by simp
  have v: "c_ideology (candidates example_sim ! 0) = 10"
    "c_ideology (candidates example_next ! 0) = 59"
    by (simp_all add: example_sim_def example_next_def)
  have a: "(145 :: real) = (10 - 10)\<^sup>2 + (1 / 2) * (1000 / 4) + (1 - 1 / 2) * (1000 / 25)"
    by simp
  show ?thesis
    by (rule conjI[OF example_step conjI[OF example_sim_sizes(2)
          conjI[OF v(1) conjI[OF v(2) conjI[OF a m]]]]])
qed

section \<open>Claims about the degenerate scenario\<close>

text \<open>
  Claim C1, as amended. In the degenerate scenario (every voter within \<open>THETA\<close> of every
  candidate and both thresholds met) every voter is included for every candidate. In
  the prototype the utility is then minus the squared ideological distance plus the
  constant \<open>RESOURCE_POOL / N_VOTERS\<close>; in the detailed simulator it is the squared
  distance plus \<open>alpha * RESOURCE_POOL / N_VOTERS + (1 - alpha) * RESOURCE_POOL /
  WINNING_COALITION_SIZE\<close>, a term that is the same for every voter. Each ballot is the
  first index of maximal utility, and the winner is the first candidate with the most
  ballots (detailed simulator) or with the largest coalition (prototype). The winner
  need not minimise the mean squared distance to the voters: in both counterexample
  runs the other candidate has the smaller mean squared distance.
\<close>

theorem degenerate_scenario_winner:
  "(run_generation_detailed cfg zs st = Inr (vote_info, counts, winner_idx, st') \<and>
    length (voters st) = nat (N_VOTERS cfg) \<and>
    length (candidates st) = nat (N_CANDIDATES cfg) \<and>
    (\<forall>v\<in>set (voters st). \<forall>c\<in>set (candidates st).
        \<bar>ideology v - c_ideology c\<bar> \<le> THETA cfg) \<and>
    TAU cfg \<le> real_of_int (WINNING_COALITION_SIZE cfg) / real_of_int (N_VOTERS cfg) \<and>
    PHI cfg \<le> real_of_int (WINNING_COALITION_SIZE cfg) / real_of_int (N_VOTERS cfg) \<longrightarrow>
      (\<forall>k < nat (N_VOTERS cfg). \<forall>cid < nat (N_CANDIDATES cfg).
         vi_included (vote_info ! k) ! cid \<and>
         vi_utilities (vote_info ! k) ! cid
           = (ideology (voters st ! k) - c_ideology (candidates st ! cid))\<^sup>2
             + (alpha (candidates st ! cid) * (RESOURCE_POOL cfg / real_of_int (N_VOTERS cfg))
                + (1 - alpha (candidates st ! cid))
                  * (RESOURCE_POOL cfg / real_of_int (WINNING_COALITION_SIZE cfg)))) \<and>
      (\<forall>info\<in>set vote_info.
         vi_ballot info < nat (N_CANDIDATES cfg) \<and>
         (\<forall>j < nat (N_CANDIDATES cfg).
            vi_utilities info ! j \<le> vi_utilities info ! vi_ballot info) \<and>
         (\<forall>j < vi_ballot info. vi_utilities info ! j < vi_utilities info ! vi_ballot info)) \<and>
      counts = map (count_list (map vi_ballot vote_info)) [0 ..< nat (N_CANDIDATES cfg)] \<and>
      winner_idx < nat (N_CANDIDATES cfg) \<and>
      (\<forall>j < nat (N_CANDIDATES cfg). counts ! j \<le> counts ! winner_idx) \<and>
      (\<forall>j < winner_idx. counts ! j < counts ! winner_idx)) \<and>
   (run_generation cfg shuffle pzs mp pst = Inr (winner, sizes, pst') \<and>
    0 < N_VOTERS cfg \<and> TAU cfg \<le> 0 \<and> PHI cfg \<le> 0 \<and>
    (\<forall>v\<in>set (p_voters pst). \<forall>c\<in>set (p_candidates pst).
        \<bar>p_ideology v - policy c\<bar> \<le> THETA cfg) \<longrightarrow>
      (\<exists>ballots winner_idx.
         proto_vote_loop cfg (p_candidates pst) (p_voters pst) = Inr ballots \<and>
         (\<forall>k < length (p_voters pst).
            proto_eval_candidates cfg (p_voters pst ! k) (p_candidates pst)
              = Inr (map (\<lambda>c. - ((p_ideology (p_voters pst ! k) - policy c)\<^sup>2)
                               + RESOURCE_POOL cfg / real_of_int (N_VOTERS cfg))
                       (p_candidates pst)) \<and>
            argmax (map (\<lambda>c. - ((p_ideology (p_voters pst ! k) - policy c)\<^sup>2)
                               + RESOURCE_POOL cfg / real_of_int (N_VOTERS cfg))
                      (p_candidates pst))
              = Inr (ballots ! k)) \<and>
         sizes = map (\<lambda>c. fcard (winning_coalition c))
                   (form_coalitions cfg shuffle ballots 0 (p_candidates pst)) \<and>
         argmax sizes = Inr winner_idx \<and>
         winner = form_coalitions cfg shuffle ballots 0 (p_candidates pst) ! winner_idx))"
proof (rule conjI; rule impI)
  assume a: "run_generation_detailed cfg zs st = Inr (vote_info, counts, winner_idx, st') \<and>
    length (voters st) = nat (N_VOTERS cfg) \<and>
    length (candidates st) = nat (N_CANDIDATES cfg) \<and>
    (\<forall>v\<in>set (voters st). \<forall>c\<in>set (candidates st).
        \<bar>ideology v - c_ideology c\<bar> \<le> THETA cfg) \<and>
    TAU cfg \<le> real_of_int (WINNING_COALITION_SIZE cfg) / real_of_int (N_VOTERS cfg) \<and>
    PHI cfg \<le> real_of_int (WINNING_COALITION_SIZE cfg) / real_of_int (N_VOTERS cfg)"
  then have run: "run_generation_detailed cfg zs st = Inr (vote_info, counts, winner_idx, st')"
    and nv: "length (voters st) = nat (N_VOTERS cfg)"
    and nc: "length (candidates st) = nat (N_CANDIDATES cfg)"
    and near: "\<forall>v\<in>set (voters st). \<forall>c\<in>set (candidates st).
        \<bar>ideology v - c_ideology c\<bar> \<le> THETA cfg"
    and tau: "TAU cfg \<le> real_of_int (WINNING_COALITION_SIZE cfg) / real_of_int (N_VOTERS cfg)"
    and phi: "PHI cfg \<le> real_of_int (WINNING_COALITION_SIZE cfg) / real_of_int (N_VOTERS cfg)"
    by blast+
  from run obtain vs' ballots where
    vl: "vote_loop cfg (candidates st) 0 (voters st) = Inr (vs', ballots, vote_info)"
    by (rule run_generation_detailed_Inr)
  have utils: "\<forall>k < nat (N_VOTERS cfg). \<forall>cid < nat (N_CANDIDATES cfg).
         vi_included (vote_info ! k) ! cid \<and>
         vi_utilities (vote_info ! k) ! cid
           = (ideology (voters st ! k) - c_ideology (candidates st ! cid))\<^sup>2
             + (alpha (candidates st ! cid) * (RESOURCE_POOL cfg / real_of_int (N_VOTERS cfg))
                + (1 - alpha (candidates st ! cid))
                  * (RESOURCE_POOL cfg / real_of_int (WINNING_COALITION_SIZE cfg)))"
    using vote_info_all_included[OF vl _ _ near tau phi] unfolding nv nc by blast
  have each: "\<forall>info\<in>set vote_info.
         vi_ballot info < nat (N_CANDIDATES cfg) \<and>
         (\<forall>j < nat (N_CANDIDATES cfg).
            vi_utilities info ! j \<le> vi_utilities info ! vi_ballot info) \<and>
         (\<forall>j < vi_ballot info. vi_utilities info ! j < vi_utilities info ! vi_ballot info)"
    using vote_info_ballots[OF vl] unfolding nc by blast
  note C = run_generation_detailed_counts[OF run nc]
  show "(\<forall>k < nat (N_VOTERS cfg). \<forall>cid < nat (N_CANDIDATES cfg).
         vi_included (vote_info ! k) ! cid \<and>
         vi_utilities (vote_info ! k) ! cid
           = (ideology (voters st ! k) - c_ideology (candidates st ! cid))\<^sup>2
             + (alpha (candidates st ! cid) * (RESOURCE_POOL cfg / real_of_int (N_VOTERS cfg))
                + (1 - alpha (candidates st ! cid))
                  * (RESOURCE_POOL cfg / real_of_int (WINNING_COALITION_SIZE cfg)))) \<and>
      (\<forall>info\<in>set vote_info.
         vi_ballot info < nat (N_CANDIDATES cfg) \<and>
         (\<forall>j < nat (N_CANDIDATES cfg).
            vi_utilities info ! j \<le> vi_utilities info ! vi_ballot info) \<and>
         (\<forall>j < vi_ballot info. vi_utilities info ! j < vi_utilities info ! vi_ballot info)) \<and>
      counts = map (count_list (map vi_ballot vote_info)) [0 ..< nat (N_CANDIDATES cfg)] \<and>
      winner_idx < nat (N_CANDIDATES cfg) \<and>
      (\<forall>j < nat (N_CANDIDATES cfg). counts ! j \<le> counts ! winner_idx) \<and>
      (\<forall>j < winner_idx. counts ! j < counts ! winner_idx)"
    by (rule conjI[OF utils conjI[OF each conjI[OF C(1) conjI[OF C(4) conjI[OF C(5) C(6)]]]]])
next
  assume a: "run_generation cfg shuffle pzs mp pst = Inr (winner, sizes, pst') \<and>
    0 < N_VOTERS cfg \<and> TAU cfg \<le> 0 \<and> PHI cfg \<le> 0 \<and>
    (\<forall>v\<in>set (p_voters pst). \<forall>c\<in>set (p_candidates pst).
        \<bar>p_ideology v - policy c\<bar> \<le> THETA cfg)"
  then have run: "run_generation cfg shuffle pzs mp pst = Inr (winner, sizes, pst')"
    and n: "0 < N_VOTERS cfg" and tau: "TAU cfg \<le> 0" and phi: "PHI cfg \<le> 0"
    and near: "\<forall>v\<in>set (p_voters pst). \<forall>c\<in>set (p_candidates pst).
        \<bar>p_ideology v - policy c\<bar> \<le> THETA cfg"
    by blast+
  from run obtain ballots winner_idx where
    vl: "proto_vote_loop cfg (p_candidates pst) (p_voters pst) = Inr ballots" and
    sz: "sizes = map (\<lambda>c. fcard (winning_coalition c))
                   (form_coalitions cfg shuffle ballots 0 (p_candidates pst))" and
    am: "argmax sizes = Inr winner_idx" and
    w: "winner = form_coalitions cfg shuffle ballots 0 (p_candidates pst) ! winner_idx"
    by (rule run_generation_Inr)
  note V = proto_vote_loop_Inr[OF vl]
  have votes: "\<forall>k < length (p_voters pst).
            proto_eval_candidates cfg (p_voters pst ! k) (p_candidates pst)
              = Inr (map (\<lambda>c. - ((p_ideology (p_voters pst ! k) - policy c)\<^sup>2)
                               + RESOURCE_POOL cfg / real_of_int (N_VOTERS cfg))
                       (p_candidates pst)) \<and>
            argmax (map (\<lambda>c. - ((p_ideology (p_voters pst ! k) - policy c)\<^sup>2)
                               + RESOURCE_POOL cfg / real_of_int (N_VOTERS cfg))
                      (p_candidates pst))
              = Inr (ballots ! k)"
  proof (intro allI impI)
    fix k assume k: "k < length (p_voters pst)"
    then have "p_voters pst ! k \<in> set (p_voters pst)" by simp
    with near have "\<forall>c\<in>set (p_candidates pst).
        \<bar>p_ideology (p_voters pst ! k) - policy c\<bar> \<le> THETA cfg" by blast
    note E = proto_eval_candidates_scenario[OF n tau phi this]
    from V k obtain us where
      "proto_eval_candidates cfg (p_voters pst ! k) (p_candidates pst) = Inr us"
      "argmax us = Inr (ballots ! k)" by blast
    with E show "proto_eval_candidates cfg (p_voters pst ! k) (p_candidates pst)
              = Inr (map (\<lambda>c. - ((p_ideology (p_voters pst ! k) - policy c)\<^sup>2)
                               + RESOURCE_POOL cfg / real_of_int (N_VOTERS cfg))
                       (p_candidates pst)) \<and>
            argmax (map (\<lambda>c. - ((p_ideology (p_voters pst ! k) - policy c)\<^sup>2)
                               + RESOURCE_POOL cfg / real_of_int (N_VOTERS cfg))
                      (p_candidates pst))
              = Inr (ballots ! k)" by simp
  qed
  show "\<exists>ballots winner_idx.
         proto_vote_loop cfg (p_candidates pst) (p_voters pst) = Inr ballots \<and>
         (\<forall>k < length (p_voters pst).
            proto_eval_candidates cfg (p_voters pst ! k) (p_candidates pst)
              = Inr (map (\<lambda>c. - ((p_ideology (p_voters pst ! k) - policy c)\<^sup>2)
                               + RESOURCE_POOL cfg / real_of_int (N_VOTERS cfg))
                       (p_candidates pst)) \<and>
            argmax (map (\<lambda>c. - ((p_ideology (p_voters pst ! k) - policy c)\<^sup>2)
                               + RESOURCE_POOL cfg / real_of_int (N_VOTERS cfg))
                      (p_candidates pst))
              = Inr (ballots ! k)) \<and>
         sizes = map (\<lambda>c. fcard (winning_coalition c))
                   (form_coalitions cfg shuffle ballots 0 (p_candidates pst)) \<and>
         argmax sizes = Inr winner_idx \<and>
         winner = form_coalitions cfg shuffle ballots 0 (p_candidates pst) ! winner_idx"
    by (intro exI[of _ ballots] exI[of _ winner_idx])
       (rule conjI[OF vl conjI[OF votes conjI[OF sz conjI[OF am w]]]])
qed

theorem degenerate_scenario_winner_counterexample:
  "N_VOTERS scenario_config = 4 \<and> N_CANDIDATES scenario_config = 2 \<and>
   THETA scenario_config = 100 \<and> TAU scenario_config = 0 \<and> PHI scenario_config = 0 \<and>
   map ideology (voters example_sim) = [10, 10, 10, 10] \<and>
   map c_ideology (candidates example_sim) = [10, 60] \<and>
   run_generation_detailed scenario_config example_draws example_sim
     = Inr (example_vote_info, [0, 4], 1, example_next) \<and>
   ((10 - 10)\<^sup>2 + (10 - 10)\<^sup>2 + (10 - 10)\<^sup>2 + (10 - 10)\<^sup>2) / 4
     < ((10 - 60)\<^sup>2 + (10 - 60)\<^sup>2 + (10 - 60)\<^sup>2 + (10 - 60)\<^sup>2) / (4 :: real) \<and>
   map p_ideology (p_voters example_proto_sim) = [0, 0, 0, 100] \<and>
   map policy (p_candidates example_proto_sim) = [40, 0] \<and>
   run_generation scenario_config example_shuffle example_draws True example_proto_sim
     = Inr (example_proto_winner, [1, 2], example_proto_next) \<and>
   policy example_proto_winner = 0 \<and>
   ((0 - 40)\<^sup>2 + (0 - 40)\<^sup>2 + (0 - 40)\<^sup>2 + (100 - 40)\<^sup>2) / 4
     < ((0 - 0)\<^sup>2 + (0 - 0)\<^sup>2 + (0 - 0)\<^sup>2 + (100 - 0)\<^sup>2) / (4 :: real)"
proof -
  have v: "map ideology (voters example_sim) = [10, 10, 10, 10]"
    "map c_ideology (candidates example_sim) = [10, 60]"
    by (simp_all add: example_sim_def)
  have pv: "map p_ideology (p_voters example_proto_sim) = [0, 0, 0, 100]"
    "map policy (p_candidates example_proto_sim) = [40, 0]"
    "policy example_proto_winner = 0"
    by (simp_all add: example_proto_sim_def Candidate_def example_proto_winner_def)
  have m1: "((10 - 10)\<^sup>2 + (10 - 10)\<^sup>2 + (10 - 10)\<^sup>2 + (10 - 10)\<^sup>2) / 4
     < ((10 - 60)\<^sup>2 + (10 - 60)\<^sup>2 + (10 - 60)\<^sup>2 + (10 - 60)\<^sup>2) / (4 :: real)"
    by simp
  have m2: "((0 - 40)\<^sup>2 + (0 - 40)\<^sup>2 + (0 - 40)\<^sup>2 + (100 - 40)\<^sup>2) / 4
     < ((0 - 0)\<^sup>2 + (0 - 0)\<^sup>2 + (0 - 0)\<^sup>2 + (100 - 0)\<^sup>2) / (4 :: real)"
    by simp
  show ?thesis
    by (rule conjI[OF scenario_values(1) conjI[OF scenario_values(2)
          conjI[OF scenario_values(3) conjI[OF scenario_values(4)
          conjI[OF scenario_values(5) conjI[OF v(1) conjI[OF v(2)
          conjI[OF example_generation conjI[OF m1 conjI[OF pv(1) conjI[OF pv(2)
          conjI[OF example_proto_generation conjI[OF pv(3) m2]]]]]]]]]]]]])
qed

theorem degenerate_scenario_winner_witness:
  "run_generation_detailed scenario_config example_draws example_sim
     = Inr (example_vote_info, [0, 4], 1, example_next) \<and>
   length (voters example_sim) = nat (N_VOTERS scenario_config) \<and>
   length (candidates example_sim) = nat (N_CANDIDATES scenario_config) \<and>
   TAU scenario_config
     \<le> real_of_int (WINNING_COALITION_SIZE scenario_config)
        / real_of_int (N_VOTERS scenario_config) \<and>
   PHI scenario_config
     \<le> real_of_int (WINNING_COALITION_SIZE scenario_config)
        / real_of_int (N_VOTERS scenario_config) \<and>
   vi_included (example_vote_info ! 0) ! 1 \<and>
   vi_utilities (example_vote_info ! 0) ! 1
     = (10 - 60)\<^sup>2 + (1 / 2 * (1000 / 4) + (1 - 1 / 2) * (1000 / 25)) \<and>
   run_generation scenario_config example_shuffle example_draws True example_proto_sim
     = Inr (example_proto_winner, [1, 2], example_proto_next) \<and>
   0 < N_VOTERS scenario_config \<and> TAU scenario_config \<le> 0 \<and> PHI scenario_config \<le> 0 \<and>
   proto_eval_candidates scenario_config (p_voters example_proto_sim ! 3)
       (p_candidates example_proto_sim)
     = Inr [- ((100 - 40)\<^sup>2) + 1000 / 4, - ((100 - 0)\<^sup>2) + 1000 / 4]"
proof -
  note T = degenerate_scenario_winner
             [of scenario_config example_draws example_sim example_vote_info "[0, 4]" 1
                 example_next example_shuffle example_draws True example_proto_sim
                 example_proto_winner "[1, 2]" example_proto_next]
  have tau: "TAU scenario_config
     \<le> real_of_int (WINNING_COALITION_SIZE scenario_config)
        / real_of_int (N_VOTERS scenario_config)"
    and phi: "PHI scenario_config
     \<le> real_of_int (WINNING_COALITION_SIZE scenario_config)
        / real_of_int (N_VOTERS scenario_config)"
    by (simp_all add: scenario_values)
  have p: "0 < N_VOTERS scenario_config" "TAU scenario_config \<le> 0" "PHI scenario_config \<le> 0"
    by (simp_all add: scenario_values)
  have hyp1: "run_generation_detailed scenario_config example_draws example_sim
       = Inr (example_vote_info, [0, 4], 1, example_next) \<and>
    length (voters example_sim) = nat (N_VOTERS scenario_config) \<and>
    length (candidates example_sim) = nat (N_CANDIDATES scenario_config) \<and>
    (\<forall>v\<in>set (voters example_sim). \<forall>c\<in>set (candidates example_sim).
        \<bar>ideology v - c_ideology c\<bar> \<le> THETA scenario_config) \<and>
    TAU scenario_config
      \<le> real_of_int (WINNING_COALITION_SIZE scenario_config)
         / real_of_int (N_VOTERS scenario_config) \<and>
    PHI scenario_config
      \<le> real_of_int (WINNING_COALITION_SIZE scenario_config)
         / real_of_int (N_VOTERS scenario_config)"
    by (rule conjI[OF example_generation conjI[OF example_sim_sizes(1)
          conjI[OF example_sim_sizes(2) conjI[OF example_sim_near conjI[OF tau phi]]]]])
  note D = T[THEN conjunct1, THEN mp, OF hyp1, THEN conjunct1, rule_format]
  have lt: "(0::nat) < nat (N_VOTERS scenario_config)"
    "(1::nat) < nat (N_CANDIDATES scenario_config)"
    by (simp_all add: scenario_values)
  have "vi_included (example_vote_info ! 0) ! 1 \<and>
         vi_utilities (example_vote_info ! 0) ! 1
           = (ideology (voters example_sim ! 0) - c_ideology (candidates example_sim ! 1))\<^sup>2
             + (alpha (candidates example_sim ! 1)
                  * (RESOURCE_POOL scenario_config / real_of_int (N_VOTERS scenario_config))
                + (1 - alpha (candidates example_sim ! 1))
                  * (RESOURCE_POOL scenario_config
                     / real_of_int (WINNING_COALITION_SIZE scenario_config)))"
    by (rule D[OF lt])
  then have d1: "vi_included (example_vote_info ! 0) ! 1"
    and d2: "vi_utilities (example_vote_info ! 0) ! 1
     = (10 - 60)\<^sup>2 + (1 / 2 * (1000 / 4) + (1 - 1 / 2) * (1000 / 25))"
    by (simp_all add: example_sim_def scenario_values)
  have hyp2: "run_generation scenario_config example_shuffle example_draws True
        example_proto_sim = Inr (example_proto_winner, [1, 2], example_proto_next) \<and>
    0 < N_VOTERS scenario_config \<and> TAU scenario_config \<le> 0 \<and> PHI scenario_config \<le> 0 \<and>
    (\<forall>v\<in>set (p_voters example_proto_sim). \<forall>c\<in>set (p_candidates example_proto_sim).
        \<bar>p_ideology v - policy c\<bar> \<le> THETA scenario_config)"
    by (rule conjI[OF example_proto_generation conjI[OF p(1) conjI[OF p(2)
          conjI[OF p(3) example_proto_sim_near]]]])
  note P = T[THEN conjunct2, THEN mp, OF hyp2]
  from P obtain ballots where
    "\<forall>k < length (p_voters example_proto_sim).
       proto_eval_candidates scenario_config (p_voters example_proto_sim ! k)
           (p_candidates example_proto_sim)
         = Inr (map (\<lambda>c. - ((p_ideology (p_voters example_proto_sim ! k) - policy c)\<^sup>2)
                          + RESOURCE_POOL scenario_config
                            / real_of_int (N_VOTERS scenario_config))
                  (p_candidates example_proto_sim)) \<and>
       argmax (map (\<lambda>c. - ((p_ideology (p_voters example_proto_sim ! k) - policy c)\<^sup>2)
                          + RESOURCE_POOL scenario_config
                            / real_of_int (N_VOTERS scenario_config))
                 (p_candidates example_proto_sim))
         = Inr (ballots ! k)"
    by (elim exE conjE)
  moreover have "(3::nat) < length (p_voters example_proto_sim)"
    by (simp add: example_proto_sim_def)
  ultimately have "proto_eval_candidates scenario_config (p_voters example_proto_sim ! 3)
           (p_candidates example_proto_sim)
         = Inr (map (\<lambda>c. - ((p_ideology (p_voters example_proto_sim ! 3) - policy c)\<^sup>2)
                          + RESOURCE_POOL scenario_config
                            / real_of_int (N_VOTERS scenario_config))
                  (p_candidates example_proto_sim))"
    by blast
  then have e: "proto_eval_candidates scenario_config (p_voters example_proto_sim ! 3)
       (p_candidates example_proto_sim)
     = Inr [- ((100 - 40)\<^sup>2) + 1000 / 4, - ((100 - 0)\<^sup>2) + 1000 / 4]"
    by (simp add: example_proto_sim_def scenario_values Candidate_def)
  show ?thesis
    by (rule conjI[OF example_generation conjI[OF example_sim_sizes(1)
          conjI[OF example_sim_sizes(2) conjI[OF tau conjI[OF phi conjI[OF d1 conjI[OF d2
          conjI[OF example_proto_generation conjI[OF p(1) conjI[OF p(2)
          conjI[OF p(3) e]]]]]]]]]]])
qed

section \<open>Claims about whole runs\<close>




end
